theory Spec2Isabelle
  imports Complex_Main "HOL-Library.Multiset"
begin

section \<open>Data model\<close>

text \<open>
  The notebook \<^verbatim>\<open>megalineMLFinal.ipynb\<close> is a sequence of code cells that share one
  global namespace. Each cell is modelled as a function from the namespace before the cell
  to either the error that aborts the run or the namespace after the cell. Floating-point
  numbers are modelled as reals. The calls into scikit-learn are the fields of a
  \<open>library\<close> record, so every theorem holds for any behaviour of the learners.

  The model starts after the Load Data cell: \<open>data\<close> is the loaded frame, with the
  schema that the notebook's \<^verbatim>\<open>data.info()\<close> output shows, four float columns and the
  integer label. Reading the file, and frames of another shape or with values that are not
  numbers, are outside the model.
\<close>

record observation =
  calls :: real
  minutes :: real
  messages :: real
  mb_used :: real
  is_ultra :: int

type_synonym feature_row = "real \<times> real \<times> real \<times> real"

datatype error = ValueError | NameError string

datatype token = S string | I int | R real

datatype line = Print "token list"

datatype fitted = Classifier "feature_row \<Rightarrow> int" | Regressor "feature_row \<Rightarrow> real"

datatype preds = Labels "int list" | Scores "real list"

text \<open>
  The third-party calls. \<open>permutation seed n\<close> is the index permutation that a fresh
  random state seeded with \<open>seed\<close> draws for \<open>n\<close> rows; \<open>tree_fit seed max_depth X y\<close>,
  \<open>forest_fit seed n_estimators max_depth X y\<close> and \<open>linreg_fit X y\<close> are the
  constructor call followed by \<^verbatim>\<open>fit\<close>, and return the fitted model as the function
  that \<^verbatim>\<open>predict\<close> applies to each row.
\<close>

record library =
  permutation :: "int \<Rightarrow> nat \<Rightarrow> nat list"
  tree_fit :: "int \<Rightarrow> int \<Rightarrow> feature_row list \<Rightarrow> int list \<Rightarrow> feature_row \<Rightarrow> int"
  forest_fit :: "int \<Rightarrow> int \<Rightarrow> int \<Rightarrow> feature_row list \<Rightarrow> int list \<Rightarrow> feature_row \<Rightarrow> int"
  linreg_fit :: "feature_row list \<Rightarrow> int list \<Rightarrow> feature_row \<Rightarrow> real"

text \<open>
  The global namespace. \<open>best_est\<close> is the one name that the code can read before any
  assignment to it, so it is an option (\<open>None\<close>: unbound). Every other name is assigned
  before it is read: \<open>data\<close> by the Load Data cell, the others by the cell that reads
  them or by an earlier one.
\<close>

record env =
  data :: "observation list"
  features :: "feature_row list"
  target :: "int list"
  features_train_val :: "feature_row list"
  features_test :: "feature_row list"
  target_train_val :: "int list"
  target_test :: "int list"
  features_train :: "feature_row list"
  features_valid :: "feature_row list"
  target_train :: "int list"
  target_valid :: "int list"
  best_accuracy :: real
  best_depth :: int
  best_estimators :: int
  best_est :: "int option"
  depth :: int
  est :: int
  model :: fitted
  predictions_valid :: preds
  accuracy :: real
  predictions_binary :: "int list"
  best_model :: "feature_row \<Rightarrow> int"
  predictions_test :: "int list"
  accuracy_test :: real
  out :: "line list"

section \<open>Control flow\<close>

definition then_run :: "error + 'a \<Rightarrow> ('a \<Rightarrow> error + 'b) \<Rightarrow> error + 'b" where
  "then_run r f = (case r of Inl e \<Rightarrow> Inl e | Inr x \<Rightarrow> f x)"

fun for_loop :: "('c \<Rightarrow> 's \<Rightarrow> error + 's) \<Rightarrow> 'c list \<Rightarrow> 's \<Rightarrow> error + 's" where
  "for_loop body [] s = Inr s"
| "for_loop body (c # cs) s = (case body c s of Inl e \<Rightarrow> Inl e | Inr s' \<Rightarrow> for_loop body cs s')"

text \<open>Python's \<^verbatim>\<open>range(start, stop, step)\<close> for a positive step.\<close>

function py_range :: "int \<Rightarrow> int \<Rightarrow> int \<Rightarrow> int list" where
  "py_range start stop step =
     (if 0 < step \<and> start < stop then start # py_range (start + step) stop step else [])"
  by pat_completeness auto
termination
  by (relation "measure (\<lambda>(start, stop, step). nat (stop - start))") auto

declare py_range.simps [simp del]

definition print :: "token list \<Rightarrow> env \<Rightarrow> env" where
  "print ts s = s\<lparr>out := out s @ [Print ts]\<rparr>"

section \<open>Library functions with a fixed meaning\<close>

text \<open>
  Modelled from the spec: \<^verbatim>\<open>accuracy_score\<close> is scikit-learn's, not the notebook's. The
  spec calls its result the fraction of correctly classified records of the scored
  partition, which is \<open>fraction_correct\<close>. The fraction does not exist for an empty
  partition or for label lists of different lengths; there the call is an error.
\<close>

definition fraction_correct :: "int list \<Rightarrow> int list \<Rightarrow> real" where
  "fraction_correct y_true y_pred =
     real (length (filter (\<lambda>(t, p). t = p) (zip y_true y_pred))) / real (length y_true)"

definition accuracy_score :: "int list \<Rightarrow> int list \<Rightarrow> error + real" where
  "accuracy_score y_true y_pred =
     (if length y_true \<noteq> length y_pred \<or> y_true = [] then Inl ValueError
      else Inr (fraction_correct y_true y_pred))"

text \<open>
  Modelled from the spec: \<^verbatim>\<open>train_test_split\<close> is scikit-learn's. The spec gives the
  shares (20\% test, then 25\% of the remainder) and the fixed seed; the sizes the notebook
  recorded (1928, 643 and 643 of 3214 rows) show that the test share is rounded up. The
  test rows are the first \<open>n_test\<close> indices of the seeded permutation, the training rows
  the ones after them, and a split that would leave no training row is refused.
\<close>

definition train_test_split ::
  "library \<Rightarrow> 'a list \<Rightarrow> 'b list \<Rightarrow> real \<Rightarrow> int \<Rightarrow> error + ('a list \<times> 'a list \<times> 'b list \<times> 'b list)" where
  "train_test_split L X y test_size random_state =
     (let n = length X;
          n_test = nat \<lceil>test_size * real n\<rceil>;
          n_train = n - n_test
      in if length y \<noteq> n \<or> test_size \<le> 0 \<or> 1 \<le> test_size \<or> n_train = 0 then Inl ValueError
         else let p = permutation L random_state n;
                  ind_test = take n_test p;
                  ind_train = take n_train (drop n_test p)
              in Inr (map ((!) X) ind_train, map ((!) X) ind_test,
                      map ((!) y) ind_train, map ((!) y) ind_test))"

text \<open>\<^verbatim>\<open>(predictions_valid > 0.5).astype(int)\<close>: the comparison, then the cast.\<close>

definition greater_than :: "real list \<Rightarrow> real \<Rightarrow> bool list" where
  "greater_than xs t = map (\<lambda>x. x > t) xs"

definition astype_int :: "bool list \<Rightarrow> int list" where
  "astype_int bs = map (\<lambda>b. if b then 1 else 0) bs"

definition drop_is_ultra :: "observation \<Rightarrow> feature_row" where
  "drop_is_ultra r = (calls r, minutes r, messages r, mb_used r)"

section \<open>The cells\<close>

text \<open>Split.\<close>

definition split_cell :: "library \<Rightarrow> env \<Rightarrow> error + env" where
  "split_cell L s =
     (let s1 = s\<lparr>features := map drop_is_ultra (data s)\<rparr>;
          s2 = s1\<lparr>target := map is_ultra (data s1)\<rparr>
      in case train_test_split L (features s2) (target s2) 0.20 12345 of
           Inl e \<Rightarrow> Inl e
         | Inr (ftv, fte, ttv, tte) \<Rightarrow>
             (let s3 = s2\<lparr>features_train_val := ftv, features_test := fte,
                          target_train_val := ttv, target_test := tte\<rparr>
              in case train_test_split L (features_train_val s3) (target_train_val s3) 0.25 12345 of
                   Inl e \<Rightarrow> Inl e
                 | Inr (ftr, fva, ttr, tva) \<Rightarrow>
                     (let s4 = s3\<lparr>features_train := ftr, features_valid := fva,
                                  target_train := ttr, target_valid := tva\<rparr>;
                          s5 = print [S ''Training Size:'', I (int (length (features_train s4))),
                                      R (3214 * 0.6)] s4;
                          s6 = print [S ''Validation Size:'', I (int (length (features_valid s5))),
                                      R (3214 * 0.2)] s5
                      in Inr (print [S ''Test Size:'', I (int (length (features_test s6))),
                                     R (3214 * 0.2)] s6))))"

text \<open>Decision Tree.\<close>

definition dt_body :: "library \<Rightarrow> int \<Rightarrow> env \<Rightarrow> error + env" where
  "dt_body L d s =
     (let s1 = s\<lparr>depth := d\<rparr>;
          m = tree_fit L 12345 (depth s1) (features_train s1) (target_train s1);
          s2 = s1\<lparr>model := Classifier m\<rparr>;
          pv = map m (features_valid s2);
          s3 = s2\<lparr>predictions_valid := Labels pv\<rparr>
      in case accuracy_score (target_valid s3) pv of
           Inl e \<Rightarrow> Inl e
         | Inr a \<Rightarrow>
             (let s4 = s3\<lparr>accuracy := a\<rparr>;
                  s5 = print [S ''max_depth ='', I (best_depth s4), S '': '', R (accuracy s4)] s4
              in if accuracy s5 > best_accuracy s5
                 then Inr (s5\<lparr>best_accuracy := accuracy s5, best_depth := depth s5\<rparr>)
                 else Inr s5))"

definition dt_cell :: "library \<Rightarrow> env \<Rightarrow> error + env" where
  "dt_cell L s =
     (case for_loop (dt_body L) (py_range 1 6 1) (s\<lparr>best_accuracy := 0, best_depth := 0\<rparr>) of
        Inl e \<Rightarrow> Inl e
      | Inr s' \<Rightarrow>
          Inr (print [S ''max_depth ='', I (best_depth s'), S '':'', R (best_accuracy s')]
                (print [S ''Best Paramaters''] (print [] s'))))"

text \<open>
  Random Forest and Random Forest 2: the two cells have the same text but for the range
  of the loop, which is the parameter \<open>cands\<close> here.
\<close>

definition rf_body :: "library \<Rightarrow> int \<Rightarrow> env \<Rightarrow> error + env" where
  "rf_body L e s =
     (let s1 = s\<lparr>est := e\<rparr>;
          m = forest_fit L 12345 (est s1) (depth s1) (features_train s1) (target_train s1);
          s2 = s1\<lparr>model := Classifier m\<rparr>;
          pv = map m (features_valid s2);
          s3 = s2\<lparr>predictions_valid := Labels pv\<rparr>
      in case accuracy_score (target_valid s3) pv of
           Inl err \<Rightarrow> Inl err
         | Inr a \<Rightarrow>
             (let s4 = s3\<lparr>accuracy := a\<rparr>;
                  s5 = print [S ''Estimators : '', I (est s4), S '': '', R (accuracy s4)] s4
              in if accuracy s5 > best_accuracy s5
                 then Inr (s5\<lparr>best_est := Some (est s5), best_accuracy := accuracy s5\<rparr>)
                 else Inr s5))"

definition rf_sweep :: "library \<Rightarrow> int list \<Rightarrow> env \<Rightarrow> error + env" where
  "rf_sweep L cands s =
     (case for_loop (rf_body L) cands (s\<lparr>best_accuracy := 0, best_estimators := 0, depth := 3\<rparr>) of
        Inl e \<Rightarrow> Inl e
      | Inr s' \<Rightarrow>
          (let s'' = print [S ''Best Parameters''] (print [] s')
           in case best_est s'' of
                None \<Rightarrow> Inl (NameError ''best_est'')
              | Some b \<Rightarrow> Inr (print [S ''Estimators:'', I b, S '':'', R (best_accuracy s'')] s'')))"

definition rf_cell1 :: "library \<Rightarrow> env \<Rightarrow> error + env" where
  "rf_cell1 L s = rf_sweep L (py_range 10 51 10) s"

definition rf_cell2 :: "library \<Rightarrow> env \<Rightarrow> error + env" where
  "rf_cell2 L s = rf_sweep L (py_range 1 21 1) s"

text \<open>Linear Regression.\<close>

definition lr_cell :: "library \<Rightarrow> env \<Rightarrow> error + env" where
  "lr_cell L s =
     (let r = linreg_fit L (features_train s) (target_train s);
          s1 = s\<lparr>model := Regressor r\<rparr>;
          pv = map r (features_valid s1);
          s2 = s1\<lparr>predictions_valid := Scores pv\<rparr>;
          s3 = s2\<lparr>predictions_binary := astype_int (greater_than pv 0.5)\<rparr>
      in case accuracy_score (target_valid s3) (predictions_binary s3) of
           Inl e \<Rightarrow> Inl e
         | Inr a \<Rightarrow> (let s4 = s3\<lparr>accuracy := a\<rparr> in Inr (print [S ''Accuracy:'', R (accuracy s4)] s4)))"

text \<open>Test Model.\<close>

definition test_cell :: "library \<Rightarrow> env \<Rightarrow> error + env" where
  "test_cell L s =
     (let s1 = s\<lparr>best_model := forest_fit L 12345 15 3 (features_train s) (target_train s)\<rparr>;
          s2 = s1\<lparr>predictions_test := map (best_model s1) (features_test s1)\<rparr>
      in case accuracy_score (target_test s2) (predictions_test s2) of
           Inl e \<Rightarrow> Inl e
         | Inr a \<Rightarrow>
             (let s3 = s2\<lparr>accuracy_test := a\<rparr>
              in Inr (print [S ''Test Accuracy:'', R (accuracy_test s3)] s3)))"

text \<open>The cells after the Split cell, run in order; the first error ends the run.\<close>

definition model_cells :: "library \<Rightarrow> env \<Rightarrow> error + env" where
  "model_cells L s =
     then_run (then_run (then_run (then_run
       (dt_cell L s) (rf_cell1 L)) (rf_cell2 L)) (lr_cell L)) (test_cell L)"

section \<open>Notions used in the statements\<close>

text \<open>The three partitions, each as its feature rows and its labels.\<close>

definition partitions ::
  "env \<Rightarrow> (feature_row list \<times> int list) \<times> (feature_row list \<times> int list) \<times> (feature_row list \<times> int list)" where
  "partitions s = ((features_train s, target_train s), (features_valid s, target_valid s),
                   (features_test s, target_test s))"

text \<open>
  What a successful Split cell leaves behind: a validation and a test partition that are
  not empty and have one label for each row.
\<close>

definition well_split :: "env \<Rightarrow> bool" where
  "well_split s \<longleftrightarrow>
     target_valid s \<noteq> [] \<and> length (features_valid s) = length (target_valid s) \<and>
     target_test s \<noteq> [] \<and> length (features_test s) = length (target_test s)"

text \<open>The validation accuracy of one candidate of a sweep, and the test accuracy.\<close>

definition dt_accuracy :: "library \<Rightarrow> env \<Rightarrow> int \<Rightarrow> real" where
  "dt_accuracy L s d =
     fraction_correct (target_valid s)
       (map (tree_fit L 12345 d (features_train s) (target_train s)) (features_valid s))"

definition rf_accuracy :: "library \<Rightarrow> env \<Rightarrow> int \<Rightarrow> real" where
  "rf_accuracy L s e =
     fraction_correct (target_valid s)
       (map (forest_fit L 12345 e 3 (features_train s) (target_train s)) (features_valid s))"

definition final_accuracy :: "library \<Rightarrow> env \<Rightarrow> real" where
  "final_accuracy L s =
     fraction_correct (target_test s)
       (map (forest_fit L 12345 15 3 (features_train s) (target_train s)) (features_test s))"

text \<open>
  The spec's selection rule, in its own words: the first candidate, in iteration order,
  whose accuracy is the maximum over all candidates.
\<close>

definition first_maximal :: "(int \<Rightarrow> real) \<Rightarrow> int list \<Rightarrow> int option" where
  "first_maximal acc cs = find (\<lambda>c. acc c = Max (acc ` set cs)) cs"

text \<open>
  The update of the best pair alone, as the loops perform it: \<open>store\<close> is the form in which
  the hyperparameter is stored.
\<close>

fun track :: "(int \<Rightarrow> real) \<Rightarrow> (int \<Rightarrow> 'h) \<Rightarrow> int list \<Rightarrow> real \<times> 'h \<Rightarrow> real \<times> 'h" where
  "track acc store [] b = b"
| "track acc store (c # cs) b = track acc store cs (if acc c > fst b then (acc c, store c) else b)"

section \<open>Concrete inputs\<close>

text \<open>
  A partition of \<open>n\<close> rows with label 1 whose \<open>calls\<close> column counts up from \<open>- off\<close>,
  and the classifier that answers 1 below the bound \<open>k\<close>: it is right on
  \<open>k + off\<close> of the rows.
\<close>

definition rows :: "int \<Rightarrow> nat \<Rightarrow> feature_row list" where
  "rows off n = map (\<lambda>i. (of_int (int i - off), 0, 0, 0)) [0..<n]"

definition below :: "int \<Rightarrow> feature_row \<Rightarrow> int" where
  "below k r = (if fst r < of_int k then 1 else 0)"

text \<open>
  The numbers of validation rows (of 643) classified correctly in the notebook's recorded
  output: 475/643 is the printed 0.7387247278382582, and so on.
\<close>

definition tree_hits :: "int \<Rightarrow> int" where
  "tree_hits d = (if d = 1 then 475 else if d = 2 then 487 else if d = 3 then 492
                  else if d = 4 then 491 else 488)"

definition forest_hits :: "int \<Rightarrow> int" where
  "forest_hits e =
     (if e = 1 \<or> e = 2 then 487 else if e = 3 \<or> e = 4 \<or> e = 5 then 489
      else if e = 6 then 492 else if e = 7 \<or> e = 9 \<or> e = 12 \<or> e = 16 then 494
      else if e = 8 \<or> e = 14 \<or> e = 18 \<or> e = 30 then 495
      else if e = 10 \<or> e = 20 \<or> e = 40 then 496
      else if e = 11 \<or> e = 13 then 498 else if e = 15 then 500
      else if e = 17 \<or> e = 19 then 497 else 493)"

definition replay_library :: library where
  "replay_library =
     \<lparr>permutation = (\<lambda>seed n. [0..<n]),
      tree_fit = (\<lambda>seed d X y. below (tree_hits d)),
      forest_fit = (\<lambda>seed e d X y. below (forest_hits e)),
      linreg_fit = (\<lambda>X y r. if fst r < 469 then 3 / 4 else 1 / 2)\<rparr>"

definition replay_env :: env where
  "replay_env =
     \<lparr>data = [], features = [], target = [],
      features_train_val = [], features_test = rows 4 643,
      target_train_val = [], target_test = replicate 643 1,
      features_train = rows 0 1928, features_valid = rows 0 643,
      target_train = replicate 1928 1, target_valid = replicate 643 1,
      best_accuracy = 0, best_depth = 0, best_estimators = 0, best_est = None,
      depth = 0, est = 0, model = Classifier (\<lambda>r. 0), predictions_valid = Labels [],
      accuracy = 0, predictions_binary = [], best_model = (\<lambda>r. 0), predictions_test = [],
      accuracy_test = 0, out = []\<rparr>"

text \<open>A library whose trees and forests are wrong on every row, but for the forest of 30.\<close>

definition zero_library :: library where
  "zero_library =
     replay_library\<lparr>tree_fit := (\<lambda>seed d X y. below 0),
                    forest_fit := (\<lambda>seed e d X y. below (if e = 30 then 643 else - 4))\<rparr>"

text \<open>A frame of five observations, and a library that permutes by reversing.\<close>

definition five_rows :: "observation list" where
  "five_rows = map (\<lambda>i. \<lparr>calls = of_nat i, minutes = 0, messages = 0, mb_used = 0,
                          is_ultra = int (Suc i mod 2)\<rparr>) [0, 1, 2, 3, 4]"

definition five_library :: library where
  "five_library = replay_library\<lparr>permutation := (\<lambda>seed n. rev [0..<n])\<rparr>"

text \<open>The same permutations, with forests that are wrong on every row of these inputs.\<close>

definition unlucky_library :: library where
  "unlucky_library = five_library\<lparr>forest_fit := (\<lambda>seed e d X y. below (- 4))\<rparr>"

section \<open>Facts about the library functions and the loops\<close>

lemma py_range_1_6: "py_range 1 6 1 = [1, 2, 3, 4, 5]"
  by (simp add: py_range.simps)

lemma py_range_10_51: "py_range 10 51 10 = [10, 20, 30, 40, 50]"
  by (simp add: py_range.simps)

lemma py_range_1_21: "py_range 1 21 1 = [1, 2, 3, 4, 5, 6, 7, 8, 9, 10, 11, 12, 13, 14, 15, 16, 17, 18, 19, 20]"
  by (simp add: py_range.simps)

lemma fraction_correct_bounds: "0 \<le> fraction_correct yt yp \<and> fraction_correct yt yp \<le> 1"
proof -
  have "length (filter (\<lambda>(t, p). t = p) (zip yt yp)) \<le> length (zip yt yp)"
    by (rule length_filter_le)
  also have "\<dots> \<le> length yt" by simp
  finally have "real (length (filter (\<lambda>(t, p). t = p) (zip yt yp))) \<le> real (length yt)"
    by simp
  then show ?thesis
    unfolding fraction_correct_def by (simp add: divide_le_eq_1)
qed

lemma fraction_correct_nonneg [simp]: "0 \<le> fraction_correct yt yp"
  using fraction_correct_bounds by blast

lemma correct_count_card:
  "length ys = length xs \<Longrightarrow>
   length (filter (\<lambda>(t, p). t = p) (zip xs ys)) = card {i. i < length xs \<and> xs ! i = ys ! i}"
proof -
  assume len: "length ys = length xs"
  have "{i. i < length (zip xs ys) \<and> (\<lambda>(t, p). t = p) (zip xs ys ! i)}
        = {i. i < length xs \<and> xs ! i = ys ! i}"
    using len by auto
  then show ?thesis
    by (simp only: length_filter_conv_card)
qed

lemma accuracy_score_valid:
  "well_split s \<Longrightarrow> accuracy_score (target_valid s) (map m (features_valid s))
     = Inr (fraction_correct (target_valid s) (map m (features_valid s)))"
  by (simp add: well_split_def accuracy_score_def)

lemma accuracy_score_test:
  "well_split s \<Longrightarrow> accuracy_score (target_test s) (map m (features_test s))
     = Inr (fraction_correct (target_test s) (map m (features_test s)))"
  by (simp add: well_split_def accuracy_score_def)

lemma well_split_cong: "partitions s' = partitions s \<Longrightarrow> well_split s' = well_split s"
  by (simp add: partitions_def well_split_def)

lemma dt_accuracy_cong: "partitions s' = partitions s \<Longrightarrow> dt_accuracy L s' = dt_accuracy L s"
  by (auto simp add: partitions_def dt_accuracy_def fun_eq_iff)

lemma rf_accuracy_cong: "partitions s' = partitions s \<Longrightarrow> rf_accuracy L s' = rf_accuracy L s"
  by (auto simp add: partitions_def rf_accuracy_def fun_eq_iff)

lemma dt_body_run:
  assumes "well_split s"
  shows "dt_body L d s =
    Inr ((if dt_accuracy L s d > best_accuracy s
          then (\<lambda>t. t\<lparr>best_accuracy := dt_accuracy L s d, best_depth := d\<rparr>) else (\<lambda>t. t))
         (s\<lparr>depth := d,
            model := Classifier (tree_fit L 12345 d (features_train s) (target_train s)),
            predictions_valid := Labels (map (tree_fit L 12345 d (features_train s) (target_train s)) (features_valid s)),
            accuracy := dt_accuracy L s d,
            out := out s @ [Print [S ''max_depth ='', I (best_depth s), S '': '', R (dt_accuracy L s d)]]\<rparr>))"
  using accuracy_score_valid [OF assms]
  by (simp add: dt_body_def Let_def print_def dt_accuracy_def)

lemma rf_body_run:
  assumes "well_split s" and "depth s = 3"
  shows "rf_body L e s =
    Inr ((if rf_accuracy L s e > best_accuracy s
          then (\<lambda>t. t\<lparr>best_est := Some e, best_accuracy := rf_accuracy L s e\<rparr>) else (\<lambda>t. t))
         (s\<lparr>est := e,
            model := Classifier (forest_fit L 12345 e 3 (features_train s) (target_train s)),
            predictions_valid := Labels (map (forest_fit L 12345 e 3 (features_train s) (target_train s)) (features_valid s)),
            accuracy := rf_accuracy L s e,
            out := out s @ [Print [S ''Estimators : '', I e, S '': '', R (rf_accuracy L s e)]]\<rparr>))"
  using accuracy_score_valid [OF assms(1)] assms(2)
  by (simp add: rf_body_def Let_def print_def rf_accuracy_def)


lemma track_unchanged: "\<forall>c\<in>set cs. acc c \<le> fst b \<Longrightarrow> track acc store cs b = b"
  by (induction cs arbitrary: b) auto

lemma track_fst: "fst (track acc store cs b) = Max (insert (fst b) (acc ` set cs))"
proof (induction cs arbitrary: b)
  case Nil
  show ?case by simp
next
  case (Cons c cs)
  let ?A = "acc ` set cs"
  have fin: "finite ?A" by simp
  show ?case
  proof (cases "acc c > fst b")
    case True
    have "acc c \<le> Max (insert (acc c) ?A)" using fin by (intro Max_ge) simp_all
    then have le: "fst b \<le> Max (insert (acc c) ?A)" using True by linarith
    have "Max (insert (fst b) (insert (acc c) ?A)) = max (fst b) (Max (insert (acc c) ?A))"
      using fin by (intro Max_insert) simp_all
    also have "\<dots> = Max (insert (acc c) ?A)" using le by simp
    finally have "Max (insert (fst b) (acc ` set (c # cs))) = Max (insert (acc c) ?A)" by simp
    moreover have "fst (track acc store (c # cs) b) = Max (insert (acc c) ?A)"
      using True by (simp add: Cons.IH)
    ultimately show ?thesis by simp
  next
    case False
    have "fst b \<le> Max (insert (fst b) ?A)" using fin by (intro Max_ge) simp_all
    then have le: "acc c \<le> Max (insert (fst b) ?A)" using False by linarith
    have "Max (insert (acc c) (insert (fst b) ?A)) = max (acc c) (Max (insert (fst b) ?A))"
      using fin by (intro Max_insert) simp_all
    also have "\<dots> = Max (insert (fst b) ?A)" using le by simp
    finally have "Max (insert (fst b) (acc ` set (c # cs))) = Max (insert (fst b) ?A)"
      by (simp add: insert_commute)
    moreover have "fst (track acc store (c # cs) b) = Max (insert (fst b) ?A)"
      using False by (simp add: Cons.IH)
    ultimately show ?thesis by simp
  qed
qed

lemma track_fst_Max:
  assumes "cs \<noteq> []" and "\<forall>c\<in>set cs. fst b \<le> acc c"
  shows "fst (track acc store cs b) = Max (acc ` set cs)"
proof -
  obtain c where c: "c \<in> set cs" using assms(1) by (cases cs) auto
  have "fst b \<le> acc c" using assms(2) c by blast
  also have "acc c \<le> Max (acc ` set cs)" using c by simp
  finally have "max (fst b) (Max (acc ` set cs)) = Max (acc ` set cs)" by simp
  moreover have "acc ` set cs \<noteq> {}" using assms(1) by simp
  ultimately show ?thesis by (simp add: track_fst)
qed

lemma track_snd:
  "\<exists>c\<in>set cs. fst b < acc c \<Longrightarrow>
   \<exists>c. first_maximal acc cs = Some c \<and> snd (track acc store cs b) = store c"
proof (induction cs arbitrary: b)
  case Nil
  then show ?case by simp
next
  case (Cons x xs)
  show ?case
  proof (cases "\<exists>c\<in>set xs. max (fst b) (acc x) < acc c")
    case True
    then obtain c where c: "c \<in> set xs" "max (fst b) (acc x) < acc c" by blast
    let ?b = "if acc x > fst b then (acc x, store x) else b"
    have "\<exists>c\<in>set xs. fst ?b < acc c" using c by (auto split: if_splits)
    from Cons.IH [OF this] obtain m where
      m: "first_maximal acc xs = Some m" "snd (track acc store xs ?b) = store m" by blast
    have "acc x < acc c" using c(2) by simp
    also have "acc c \<le> Max (acc ` set xs)" using c(1) by simp
    finally have lt: "acc x < Max (acc ` set xs)" .
    have "Max (insert (acc x) (acc ` set xs)) = max (acc x) (Max (acc ` set xs))"
      using c(1) by (intro Max_insert) auto
    also have "\<dots> = Max (acc ` set xs)" using lt by simp
    finally have "Max (acc ` set (x # xs)) = Max (acc ` set xs)" by simp
    then have "first_maximal acc (x # xs) = first_maximal acc xs"
      using lt by (simp add: first_maximal_def)
    with m show ?thesis by simp
  next
    case False
    then have le: "\<forall>c\<in>set xs. acc c \<le> max (fst b) (acc x)" by (auto simp add: not_less)
    from Cons.prems False have gt: "fst b < acc x" by (auto simp add: max_def split: if_splits)
    then have le': "\<forall>c\<in>set xs. acc c \<le> acc x" using le by simp
    then have "track acc store (x # xs) b = (acc x, store x)"
      using gt by (simp add: track_unchanged)
    moreover have "Max (acc ` set (x # xs)) = acc x"
      using le' by (auto intro!: Max_eqI)
    then have "first_maximal acc (x # xs) = Some x" by (simp add: first_maximal_def)
    ultimately show ?thesis by simp
  qed
qed

lemma dt_loop:
  "well_split s \<Longrightarrow>
   \<exists>s'. for_loop (dt_body L) cs s = Inr s' \<and> partitions s' = partitions s \<and>
        best_est s' = best_est s \<and>
        (best_accuracy s', best_depth s')
          = track (dt_accuracy L s) (\<lambda>d. d) cs (best_accuracy s, best_depth s)"
proof (induction cs arbitrary: s)
  case Nil
  show ?case by simp
next
  case (Cons c cs)
  obtain s1 where s1: "dt_body L c s = Inr s1"
    using dt_body_run [OF Cons.prems] by blast
  have eq: "s1 = (if dt_accuracy L s c > best_accuracy s
          then (\<lambda>t. t\<lparr>best_accuracy := dt_accuracy L s c, best_depth := c\<rparr>) else (\<lambda>t. t))
         (s\<lparr>depth := c,
            model := Classifier (tree_fit L 12345 c (features_train s) (target_train s)),
            predictions_valid := Labels (map (tree_fit L 12345 c (features_train s) (target_train s)) (features_valid s)),
            accuracy := dt_accuracy L s c,
            out := out s @ [Print [S ''max_depth ='', I (best_depth s), S '': '', R (dt_accuracy L s c)]]\<rparr>)"
    using s1 dt_body_run [OF Cons.prems, of L c] by simp
  have p1: "partitions s1 = partitions s"
    unfolding eq by (simp add: partitions_def)
  have e1: "best_est s1 = best_est s"
    unfolding eq by simp
  have b1: "(best_accuracy s1, best_depth s1)
       = (if dt_accuracy L s c > best_accuracy s then (dt_accuracy L s c, c)
          else (best_accuracy s, best_depth s))"
    unfolding eq by simp
  have "well_split s1" using Cons.prems(1) by (simp add: well_split_cong [OF p1])
  from Cons.IH [OF this] obtain s' where
    s': "for_loop (dt_body L) cs s1 = Inr s'" "partitions s' = partitions s1"
        "best_est s' = best_est s1"
        "(best_accuracy s', best_depth s')
           = track (dt_accuracy L s1) (\<lambda>d. d) cs (best_accuracy s1, best_depth s1)"
    by blast
  have "for_loop (dt_body L) (c # cs) s = Inr s'" using s1 s'(1) by simp
  moreover have "(best_accuracy s', best_depth s')
     = track (dt_accuracy L s) (\<lambda>d. d) (c # cs) (best_accuracy s, best_depth s)"
    using s'(4) b1 by (simp add: dt_accuracy_cong [OF p1])
  ultimately show ?case using s'(2,3) p1 e1 by simp
qed

lemma rf_loop:
  "well_split s \<Longrightarrow> depth s = 3 \<Longrightarrow>
   \<exists>s'. for_loop (rf_body L) cs s = Inr s' \<and> partitions s' = partitions s \<and>
        (best_accuracy s', best_est s')
          = track (rf_accuracy L s) Some cs (best_accuracy s, best_est s)"
proof (induction cs arbitrary: s)
  case Nil
  show ?case by simp
next
  case (Cons c cs)
  obtain s1 where s1: "rf_body L c s = Inr s1"
    using rf_body_run [OF Cons.prems] by blast
  have eq: "s1 = (if rf_accuracy L s c > best_accuracy s
          then (\<lambda>t. t\<lparr>best_est := Some c, best_accuracy := rf_accuracy L s c\<rparr>) else (\<lambda>t. t))
         (s\<lparr>est := c,
            model := Classifier (forest_fit L 12345 c 3 (features_train s) (target_train s)),
            predictions_valid := Labels (map (forest_fit L 12345 c 3 (features_train s) (target_train s)) (features_valid s)),
            accuracy := rf_accuracy L s c,
            out := out s @ [Print [S ''Estimators : '', I c, S '': '', R (rf_accuracy L s c)]]\<rparr>)"
    using s1 rf_body_run [OF Cons.prems, of L c] by simp
  have p1: "partitions s1 = partitions s"
    unfolding eq by (simp add: partitions_def)
  have d1: "depth s1 = 3"
    unfolding eq using Cons.prems(2) by simp
  have b1: "(best_accuracy s1, best_est s1)
       = (if rf_accuracy L s c > best_accuracy s then (rf_accuracy L s c, Some c)
          else (best_accuracy s, best_est s))"
    unfolding eq by simp
  have "well_split s1" using Cons.prems(1) by (simp add: well_split_cong [OF p1])
  from Cons.IH [OF this d1] obtain s' where
    s': "for_loop (rf_body L) cs s1 = Inr s'" "partitions s' = partitions s1"
        "(best_accuracy s', best_est s')
           = track (rf_accuracy L s1) Some cs (best_accuracy s1, best_est s1)"
    by blast
  have "for_loop (rf_body L) (c # cs) s = Inr s'" using s1 s'(1) by simp
  moreover have "(best_accuracy s', best_est s')
     = track (rf_accuracy L s) Some (c # cs) (best_accuracy s, best_est s)"
    using s'(3) b1 by (simp add: rf_accuracy_cong [OF p1])
  ultimately show ?case using s'(2) p1 by simp
qed

lemma dt_cell_run:
  assumes "well_split s"
  shows "\<exists>s'. dt_cell L s = Inr s' \<and> partitions s' = partitions s \<and> best_est s' = best_est s \<and>
          (best_accuracy s', best_depth s') = track (dt_accuracy L s) (\<lambda>d. d) (py_range 1 6 1) (0, 0) \<and>
          last (out s') = Print [S ''max_depth ='', I (best_depth s'), S '':'', R (best_accuracy s')]"
proof -
  let ?s0 = "s\<lparr>best_accuracy := 0, best_depth := 0\<rparr>"
  have p0: "partitions ?s0 = partitions s" by (simp add: partitions_def)
  have "well_split ?s0" using assms by (simp add: well_split_cong [OF p0])
  from dt_loop [OF this, of L "py_range 1 6 1"] obtain s1 where
    s1: "for_loop (dt_body L) (py_range 1 6 1) ?s0 = Inr s1" "partitions s1 = partitions ?s0"
        "best_est s1 = best_est ?s0"
        "(best_accuracy s1, best_depth s1)
           = track (dt_accuracy L ?s0) (\<lambda>d. d) (py_range 1 6 1) (best_accuracy ?s0, best_depth ?s0)"
    by blast
  let ?s' = "print [S ''max_depth ='', I (best_depth s1), S '':'', R (best_accuracy s1)]
                (print [S ''Best Paramaters''] (print [] s1))"
  have "dt_cell L s = Inr ?s'" using s1(1) by (simp add: dt_cell_def)
  moreover have "partitions ?s' = partitions s"
    using s1(2) p0 by (simp add: partitions_def print_def)
  moreover have "best_est ?s' = best_est s" using s1(3) by (simp add: print_def)
  moreover have "(best_accuracy ?s', best_depth ?s')
      = track (dt_accuracy L s) (\<lambda>d. d) (py_range 1 6 1) (0, 0)"
    using s1(4) by (simp add: print_def dt_accuracy_cong [OF p0])
  moreover have "last (out ?s') = Print [S ''max_depth ='', I (best_depth ?s'), S '':'', R (best_accuracy ?s')]"
    by (simp add: print_def)
  ultimately show ?thesis by blast
qed

lemma rf_sweep_loop:
  assumes "well_split s"
  shows "\<exists>s1. for_loop (rf_body L) cands (s\<lparr>best_accuracy := 0, best_estimators := 0, depth := 3\<rparr>) = Inr s1 \<and>
          partitions s1 = partitions s \<and>
          (best_accuracy s1, best_est s1) = track (rf_accuracy L s) Some cands (0, best_est s)"
proof -
  let ?s0 = "s\<lparr>best_accuracy := 0, best_estimators := 0, depth := 3\<rparr>"
  have p0: "partitions ?s0 = partitions s" by (simp add: partitions_def)
  have w0: "well_split ?s0" using assms by (simp add: well_split_cong [OF p0])
  have d0: "depth ?s0 = 3" by simp
  from rf_loop [OF w0 d0, of L cands] obtain s1 where
    s1: "for_loop (rf_body L) cands ?s0 = Inr s1" "partitions s1 = partitions ?s0"
        "(best_accuracy s1, best_est s1)
           = track (rf_accuracy L ?s0) Some cands (best_accuracy ?s0, best_est ?s0)"
    by blast
  have "(best_accuracy s1, best_est s1) = track (rf_accuracy L s) Some cands (0, best_est s)"
    using s1(3) by (simp add: rf_accuracy_cong [OF p0])
  then show ?thesis using s1(1,2) p0 by auto
qed

lemma rf_sweep_unbound:
  assumes "well_split s" and "snd (track (rf_accuracy L s) Some cands (0, best_est s)) = None"
  shows "rf_sweep L cands s = Inl (NameError ''best_est'')"
proof -
  from rf_sweep_loop [OF assms(1), of L cands] obtain s1 where
    s1: "for_loop (rf_body L) cands (s\<lparr>best_accuracy := 0, best_estimators := 0, depth := 3\<rparr>) = Inr s1"
        "(best_accuracy s1, best_est s1) = track (rf_accuracy L s) Some cands (0, best_est s)"
    by blast
  have "best_est s1 = None" using s1(2) assms(2) by (metis snd_conv)
  then show ?thesis using s1(1) by (simp add: rf_sweep_def print_def)
qed

lemma rf_sweep_bound:
  assumes "well_split s" and "snd (track (rf_accuracy L s) Some cands (0, best_est s)) = Some b"
  shows "\<exists>s'. rf_sweep L cands s = Inr s' \<and> partitions s' = partitions s \<and>
          best_est s' = Some b \<and>
          best_accuracy s' = fst (track (rf_accuracy L s) Some cands (0, best_est s)) \<and>
          last (out s') = Print [S ''Estimators:'', I b, S '':'', R (best_accuracy s')]"
proof -
  from rf_sweep_loop [OF assms(1), of L cands] obtain s1 where
    s1: "for_loop (rf_body L) cands (s\<lparr>best_accuracy := 0, best_estimators := 0, depth := 3\<rparr>) = Inr s1"
        "partitions s1 = partitions s"
        "(best_accuracy s1, best_est s1) = track (rf_accuracy L s) Some cands (0, best_est s)"
    by blast
  have b: "best_est s1 = Some b" using s1(3) assms(2) by (metis snd_conv)
  have a: "best_accuracy s1 = fst (track (rf_accuracy L s) Some cands (0, best_est s))"
    using s1(3) by (metis fst_conv)
  let ?s' = "print [S ''Estimators:'', I b, S '':'', R (best_accuracy s1)]
               (print [S ''Best Parameters''] (print [] s1))"
  have "rf_sweep L cands s = Inr ?s'" using s1(1) b by (simp add: rf_sweep_def print_def)
  moreover have "partitions ?s' = partitions s" using s1(2) by (simp add: partitions_def print_def)
  moreover have "best_est ?s' = Some b" using b by (simp add: print_def)
  moreover have "best_accuracy ?s' = fst (track (rf_accuracy L s) Some cands (0, best_est s))"
    using a by (simp add: print_def)
  moreover have "last (out ?s') = Print [S ''Estimators:'', I b, S '':'', R (best_accuracy ?s')]"
    by (simp add: print_def)
  ultimately show ?thesis by blast
qed

lemma lr_cell_run:
  assumes "well_split s"
  shows "lr_cell L s =
    Inr (s\<lparr>model := Regressor (linreg_fit L (features_train s) (target_train s)),
           predictions_valid := Scores (map (linreg_fit L (features_train s) (target_train s)) (features_valid s)),
           predictions_binary := astype_int (greater_than (map (linreg_fit L (features_train s) (target_train s)) (features_valid s)) 0.5),
           accuracy := fraction_correct (target_valid s)
              (astype_int (greater_than (map (linreg_fit L (features_train s) (target_train s)) (features_valid s)) 0.5)),
           out := out s @ [Print [S ''Accuracy:'', R (fraction_correct (target_valid s)
              (astype_int (greater_than (map (linreg_fit L (features_train s) (target_train s)) (features_valid s)) 0.5)))]]\<rparr>)"
proof -
  have "accuracy_score (target_valid s)
      (astype_int (greater_than (map (linreg_fit L (features_train s) (target_train s)) (features_valid s)) 0.5))
    = Inr (fraction_correct (target_valid s)
      (astype_int (greater_than (map (linreg_fit L (features_train s) (target_train s)) (features_valid s)) 0.5)))"
    using assms by (simp add: well_split_def accuracy_score_def astype_int_def greater_than_def)
  then show ?thesis by (simp add: lr_cell_def Let_def print_def)
qed

lemma test_cell_run:
  assumes "well_split s"
  shows "test_cell L s =
    Inr (s\<lparr>best_model := forest_fit L 12345 15 3 (features_train s) (target_train s),
           predictions_test := map (forest_fit L 12345 15 3 (features_train s) (target_train s)) (features_test s),
           accuracy_test := final_accuracy L s,
           out := out s @ [Print [S ''Test Accuracy:'', R (final_accuracy L s)]]\<rparr>)"
  using accuracy_score_test [OF assms]
  by (simp add: test_cell_def Let_def print_def final_accuracy_def)

lemma count_below:
  "length (filter (\<lambda>(t, p). t = p) (zip (replicate n 1) (map (below k) (rows off n))))
     = nat (min (int n) (k + off))"
proof (induction n)
  case 0
  show ?case by (simp add: rows_def)
next
  case (Suc n)
  have r: "rows off (Suc n) = rows off n @ [(of_int (int n - off), 0, 0, 0)]"
    by (simp add: rows_def)
  have rep: "replicate (Suc n) (1::int) = replicate n 1 @ [1]"
    by (simp add: replicate_append_same)
  have len: "length (replicate n (1::int)) = length (map (below k) (rows off n))"
    by (simp add: rows_def)
  have z: "zip (replicate (Suc n) (1::int)) (map (below k) (rows off (Suc n)))
         = zip (replicate n 1) (map (below k) (rows off n)) @ [(1, below k (of_int (int n - off), 0, 0, 0))]"
    unfolding r rep map_append using len by (simp only: zip_append) simp
  have "(real_of_int (int n - off) < real_of_int k) = (int n - off < k)"
    by (rule of_int_less_iff)
  then have b: "below k (of_int (int n - off), 0, 0, 0) = (if int n - off < k then 1 else 0)"
    unfolding below_def fst_conv by simp
  have "length (filter (\<lambda>(t, p). t = p) (zip (replicate (Suc n) 1) (map (below k) (rows off (Suc n)))))
      = length (filter (\<lambda>(t, p). t = p) (zip (replicate n 1) (map (below k) (rows off n))))
        + (if int n - off < k then 1 else 0)"
    unfolding z b by simp
  also have "\<dots> = nat (min (int n) (k + off)) + (if int n - off < k then 1 else 0)"
    by (simp only: Suc.IH)
  also have "\<dots> = nat (min (int (Suc n)) (k + off))"
    by (cases "int n - off < k") (simp_all add: min_def, linarith+)
  finally show ?case .
qed

lemma fraction_below:
  "fraction_correct (replicate n 1) (map (below k) (rows off n))
     = real (nat (min (int n) (k + off))) / real n"
  by (simp add: fraction_correct_def count_below)

lemma well_split_replay: "well_split replay_env"
  by (simp add: well_split_def replay_env_def rows_def)

lemma then_run_Inr: "then_run r f = Inr y \<Longrightarrow> \<exists>x. r = Inr x \<and> f x = Inr y"
  by (cases r) (simp_all add: then_run_def)

lemma then_run_simps [simp]: "then_run (Inl e) f = Inl e" "then_run (Inr x) f = f x"
  by (simp_all add: then_run_def)

lemma binarize_length: "length (astype_int (greater_than ps t)) = length ps"
  by (simp add: astype_int_def greater_than_def)

lemma binarize_nth:
  "i < length ps \<Longrightarrow> astype_int (greater_than ps t) ! i = (if ps ! i > t then 1 else 0)"
  by (simp add: astype_int_def greater_than_def)

section \<open>The claims\<close>

subsection \<open>Thresholding (C3)\<close>

text \<open>
  C3. The thresholded regression classifier compares every prediction with the fixed
  threshold 0.5 by a strict greater-than: a prediction of exactly 0.5 (and any smaller one)
  becomes class 0, every prediction strictly above 0.5 becomes class 1, and the Linear
  Regression cell stores exactly this binarisation of the regressor's validation scores.
\<close>

theorem threshold_binarization:
  "length (astype_int (greater_than ps 0.5)) = length ps \<and>
   (\<forall>i<length ps.
      (ps ! i = 0.5 \<longrightarrow> astype_int (greater_than ps 0.5) ! i = 0) \<and>
      (0.5 < ps ! i \<longrightarrow> astype_int (greater_than ps 0.5) ! i = 1) \<and>
      (ps ! i \<le> 0.5 \<longrightarrow> astype_int (greater_than ps 0.5) ! i = 0)) \<and>
   (lr_cell L s = Inr s' \<longrightarrow>
      predictions_binary s' =
        astype_int (greater_than
          (map (linreg_fit L (features_train s) (target_train s)) (features_valid s)) 0.5))"
proof (intro conjI allI impI)
  show "length (astype_int (greater_than ps 0.5)) = length ps" by (rule binarize_length)
next
  fix i assume "i < length ps" "ps ! i = 0.5"
  then show "astype_int (greater_than ps 0.5) ! i = 0" by (simp add: binarize_nth)
next
  fix i assume "i < length ps" "0.5 < ps ! i"
  then show "astype_int (greater_than ps 0.5) ! i = 1" by (simp add: binarize_nth)
next
  fix i assume "i < length ps" "ps ! i \<le> 0.5"
  then show "astype_int (greater_than ps 0.5) ! i = 0" by (simp add: binarize_nth)
next
  assume "lr_cell L s = Inr s'"
  then show "predictions_binary s' =
        astype_int (greater_than
          (map (linreg_fit L (features_train s) (target_train s)) (features_valid s)) 0.5)"
    by (auto simp add: lr_cell_def Let_def print_def split: sum.splits)
qed

text \<open>An instance: three scores, one of them on the threshold, and the recorded run.\<close>

theorem threshold_binarization_witness:
  "astype_int (greater_than [1 / 2, 3 / 4, 1 / 5] 0.5) ! 0 = 0 \<and>
   astype_int (greater_than [1 / 2, 3 / 4, 1 / 5] 0.5) ! 1 = 1 \<and>
   astype_int (greater_than [1 / 2, 3 / 4, 1 / 5] 0.5) ! 2 = 0 \<and>
   (\<exists>s'. lr_cell replay_library replay_env = Inr s' \<and>
      predictions_binary s' =
        astype_int (greater_than
          (map (linreg_fit replay_library (features_train replay_env) (target_train replay_env))
             (features_valid replay_env)) 0.5))"
proof -
  obtain s' where run: "lr_cell replay_library replay_env = Inr s'"
    using lr_cell_run [OF well_split_replay] by blast
  note th = threshold_binarization [of "[1 / 2, 3 / 4, 1 / 5]" replay_library replay_env s']
  from th have "\<forall>i<3. ([1 / 2, 3 / 4, 1 / 5 :: real] ! i = 0.5 \<longrightarrow>
        astype_int (greater_than [1 / 2, 3 / 4, 1 / 5] 0.5) ! i = 0) \<and>
      (0.5 < [1 / 2, 3 / 4, 1 / 5 :: real] ! i \<longrightarrow>
        astype_int (greater_than [1 / 2, 3 / 4, 1 / 5] 0.5) ! i = 1) \<and>
      ([1 / 2, 3 / 4, 1 / 5 :: real] ! i \<le> 0.5 \<longrightarrow>
        astype_int (greater_than [1 / 2, 3 / 4, 1 / 5] 0.5) ! i = 0)"
    by simp
  then have "astype_int (greater_than [1 / 2, 3 / 4, 1 / 5] 0.5) ! 0 = 0"
    and "astype_int (greater_than [1 / 2, 3 / 4, 1 / 5] 0.5) ! 1 = 1"
    and "astype_int (greater_than [1 / 2, 3 / 4, 1 / 5] 0.5) ! 2 = 0"
    by (simp_all add: numeral_2_eq_2 del: One_nat_def)
  moreover from th run have "predictions_binary s' =
        astype_int (greater_than
          (map (linreg_fit replay_library (features_train replay_env) (target_train replay_env))
             (features_valid replay_env)) 0.5)"
    by blast
  ultimately show ?thesis using run by blast
qed

subsection \<open>Accuracy values (C7)\<close>

lemma accuracy_score_Inr:
  assumes "accuracy_score y_true y_pred = Inr a"
  shows "0 \<le> a" and "a \<le> 1"
    and "a = real (card {i. i < length y_true \<and> y_true ! i = y_pred ! i}) / real (length y_true)"
proof -
  from assms have len: "length y_pred = length y_true" and a: "a = fraction_correct y_true y_pred"
    by (auto simp add: accuracy_score_def split: if_splits)
  show "0 \<le> a" "a \<le> 1" using a fraction_correct_bounds by simp_all
  show "a = real (card {i. i < length y_true \<and> y_true ! i = y_pred ! i}) / real (length y_true)"
    unfolding a fraction_correct_def by (simp only: correct_count_card [OF len])
qed

lemma scored_fraction:
  assumes "accuracy_score yt (map m X) = Inr a"
  shows "0 \<le> a \<and> a \<le> 1 \<and> yt \<noteq> [] \<and> length X = length yt \<and>
         a = real (card {i. i < length yt \<and> yt ! i = m (X ! i)}) / real (length yt)"
proof -
  from assms have ne: "yt \<noteq> []" and len: "length X = length yt"
    by (auto simp add: accuracy_score_def split: if_splits)
  have "{i. i < length yt \<and> yt ! i = map m X ! i} = {i. i < length yt \<and> yt ! i = m (X ! i)}"
    using len by auto
  then have "a = real (card {i. i < length yt \<and> yt ! i = m (X ! i)}) / real (length yt)"
    using accuracy_score_Inr(3) [OF assms] by simp
  then show ?thesis using accuracy_score_Inr(1,2) [OF assms] ne len by blast
qed

lemma binarize_map:
  "astype_int (greater_than (map r X) t) = map (\<lambda>x. if r x > t then 1 else 0) X"
  by (simp add: astype_int_def greater_than_def)

lemma dt_body_scores:
  "dt_body L d s = Inr s' \<Longrightarrow>
   accuracy_score (target_valid s)
     (map (tree_fit L 12345 d (features_train s) (target_train s)) (features_valid s))
     = Inr (accuracy s')"
  by (auto simp add: dt_body_def Let_def print_def split: sum.splits if_splits)

lemma rf_body_scores:
  "rf_body L e s = Inr s' \<Longrightarrow>
   accuracy_score (target_valid s)
     (map (forest_fit L 12345 e (depth s) (features_train s) (target_train s)) (features_valid s))
     = Inr (accuracy s')"
  by (auto simp add: rf_body_def Let_def print_def split: sum.splits if_splits)

lemma lr_cell_scores:
  "lr_cell L s = Inr s' \<Longrightarrow>
   accuracy_score (target_valid s)
     (map (\<lambda>x. if linreg_fit L (features_train s) (target_train s) x > 0.5 then 1 else 0)
        (features_valid s))
     = Inr (accuracy s')"
  by (auto simp add: lr_cell_def Let_def print_def binarize_map split: sum.splits)

lemma test_cell_scores:
  "test_cell L s = Inr s' \<Longrightarrow>
   accuracy_score (target_test s)
     (map (forest_fit L 12345 15 3 (features_train s) (target_train s)) (features_test s))
     = Inr (accuracy_test s')"
  by (auto simp add: test_cell_def Let_def print_def split: sum.splits)

text \<open>
  C7. Every accuracy value that a cell computes lies in the closed interval from 0 to 1,
  and it is the fraction of correctly classified records of the partition it scores: an
  iteration of the decision-tree or of a random-forest sweep stores the number of
  validation rows on which the model just fitted on the training partition predicts the
  row's label, divided by the size of the validation partition; the Linear Regression
  cell stores the same for the thresholded regression; and the Test Model cell stores it
  for the refitted forest on the test partition.
\<close>

theorem accuracy_in_unit_interval:
  "(accuracy_score y_true y_pred = Inr a \<longrightarrow>
      0 \<le> a \<and> a \<le> 1 \<and>
      a = real (card {i. i < length y_true \<and> y_true ! i = y_pred ! i}) / real (length y_true)) \<and>
   (dt_body L d s = Inr s1 \<longrightarrow>
      0 \<le> accuracy s1 \<and> accuracy s1 \<le> 1 \<and>
      target_valid s \<noteq> [] \<and> length (features_valid s) = length (target_valid s) \<and>
      accuracy s1 =
        real (card {i. i < length (target_valid s) \<and>
                 target_valid s ! i
                   = tree_fit L 12345 d (features_train s) (target_train s) (features_valid s ! i)})
          / real (length (target_valid s))) \<and>
   (rf_body L e s = Inr s2 \<longrightarrow>
      0 \<le> accuracy s2 \<and> accuracy s2 \<le> 1 \<and>
      target_valid s \<noteq> [] \<and> length (features_valid s) = length (target_valid s) \<and>
      accuracy s2 =
        real (card {i. i < length (target_valid s) \<and>
                 target_valid s ! i
                   = forest_fit L 12345 e (depth s) (features_train s) (target_train s)
                       (features_valid s ! i)})
          / real (length (target_valid s))) \<and>
   (lr_cell L s = Inr s3 \<longrightarrow>
      0 \<le> accuracy s3 \<and> accuracy s3 \<le> 1 \<and>
      target_valid s \<noteq> [] \<and> length (features_valid s) = length (target_valid s) \<and>
      accuracy s3 =
        real (card {i. i < length (target_valid s) \<and>
                 target_valid s ! i
                   = (if linreg_fit L (features_train s) (target_train s) (features_valid s ! i) > 0.5
                      then 1 else 0)})
          / real (length (target_valid s))) \<and>
   (test_cell L s = Inr s4 \<longrightarrow>
      0 \<le> accuracy_test s4 \<and> accuracy_test s4 \<le> 1 \<and>
      target_test s \<noteq> [] \<and> length (features_test s) = length (target_test s) \<and>
      accuracy_test s4 =
        real (card {i. i < length (target_test s) \<and>
                 target_test s ! i
                   = forest_fit L 12345 15 3 (features_train s) (target_train s) (features_test s ! i)})
          / real (length (target_test s)))"
proof (intro conjI impI)
  assume h: "accuracy_score y_true y_pred = Inr a"
  show "0 \<le> a" "a \<le> 1"
    "a = real (card {i. i < length y_true \<and> y_true ! i = y_pred ! i}) / real (length y_true)"
    using accuracy_score_Inr [OF h] by blast+
next
  assume "dt_body L d s = Inr s1"
  note f = scored_fraction [OF dt_body_scores [OF this]]
  show "0 \<le> accuracy s1" "accuracy s1 \<le> 1" "target_valid s \<noteq> []"
    "length (features_valid s) = length (target_valid s)"
    "accuracy s1 =
        real (card {i. i < length (target_valid s) \<and>
                 target_valid s ! i
                   = tree_fit L 12345 d (features_train s) (target_train s) (features_valid s ! i)})
          / real (length (target_valid s))"
    using f by blast+
next
  assume "rf_body L e s = Inr s2"
  note f = scored_fraction [OF rf_body_scores [OF this]]
  show "0 \<le> accuracy s2" "accuracy s2 \<le> 1" "target_valid s \<noteq> []"
    "length (features_valid s) = length (target_valid s)"
    "accuracy s2 =
        real (card {i. i < length (target_valid s) \<and>
                 target_valid s ! i
                   = forest_fit L 12345 e (depth s) (features_train s) (target_train s)
                       (features_valid s ! i)})
          / real (length (target_valid s))"
    using f by blast+
next
  assume "lr_cell L s = Inr s3"
  note f = scored_fraction [OF lr_cell_scores [OF this]]
  show "0 \<le> accuracy s3" "accuracy s3 \<le> 1" "target_valid s \<noteq> []"
    "length (features_valid s) = length (target_valid s)"
    "accuracy s3 =
        real (card {i. i < length (target_valid s) \<and>
                 target_valid s ! i
                   = (if linreg_fit L (features_train s) (target_train s) (features_valid s ! i) > 0.5
                      then 1 else 0)})
          / real (length (target_valid s))"
    using f by blast+
next
  assume "test_cell L s = Inr s4"
  note f = scored_fraction [OF test_cell_scores [OF this]]
  show "0 \<le> accuracy_test s4" "accuracy_test s4 \<le> 1" "target_test s \<noteq> []"
    "length (features_test s) = length (target_test s)"
    "accuracy_test s4 =
        real (card {i. i < length (target_test s) \<and>
                 target_test s ! i
                   = forest_fit L 12345 15 3 (features_train s) (target_train s) (features_test s ! i)})
          / real (length (target_test s))"
    using f by blast+
qed

lemma replay_depth3: "depth (replay_env\<lparr>depth := 3\<rparr>) = 3"
  by simp

lemma well_split_replay3: "well_split (replay_env\<lparr>depth := 3\<rparr>)"
  using well_split_replay by (simp add: well_split_def)

text \<open>An instance: two of three labels right, and the cells on the recorded run.\<close>

theorem accuracy_in_unit_interval_witness:
  "accuracy_score [1, 0, 1] [1, 1, 1] = Inr (2 / 3) \<and> (0::real) \<le> 2 / 3 \<and> (2 / 3 :: real) \<le> 1 \<and>
   (\<exists>s1. dt_body replay_library 3 (replay_env\<lparr>depth := 3\<rparr>) = Inr s1 \<and>
      0 \<le> accuracy s1 \<and> accuracy s1 \<le> 1 \<and> accuracy s1 = 492 / 643 \<and>
      real (card {i. i < length (target_valid (replay_env\<lparr>depth := 3\<rparr>)) \<and>
              target_valid (replay_env\<lparr>depth := 3\<rparr>) ! i
                = tree_fit replay_library 12345 3 (features_train (replay_env\<lparr>depth := 3\<rparr>))
                    (target_train (replay_env\<lparr>depth := 3\<rparr>))
                    (features_valid (replay_env\<lparr>depth := 3\<rparr>) ! i)})
        / real (length (target_valid (replay_env\<lparr>depth := 3\<rparr>))) = 492 / 643) \<and>
   (\<exists>s2. rf_body replay_library 15 (replay_env\<lparr>depth := 3\<rparr>) = Inr s2 \<and>
      0 \<le> accuracy s2 \<and> accuracy s2 \<le> 1 \<and> accuracy s2 = 500 / 643) \<and>
   (\<exists>s3. lr_cell replay_library (replay_env\<lparr>depth := 3\<rparr>) = Inr s3 \<and>
      0 \<le> accuracy s3 \<and> accuracy s3 \<le> 1 \<and> accuracy s3 = 469 / 643) \<and>
   (\<exists>s4. test_cell replay_library (replay_env\<lparr>depth := 3\<rparr>) = Inr s4 \<and>
      0 \<le> accuracy_test s4 \<and> accuracy_test s4 \<le> 1 \<and> accuracy_test s4 = 504 / 643)"
proof -
  let ?s = "replay_env\<lparr>depth := 3\<rparr>"
  note w = well_split_replay3
  have sc: "accuracy_score [1, 0, 1] [1, 1, 1] = Inr (2 / 3)"
    by (simp add: accuracy_score_def fraction_correct_def)
  have da: "dt_accuracy replay_library ?s 3 = 492 / 643"
    by (simp add: dt_accuracy_def replay_library_def replay_env_def fraction_below tree_hits_def)
  have ra: "rf_accuracy replay_library ?s 15 = 500 / 643"
    by (simp add: rf_accuracy_def replay_library_def replay_env_def fraction_below forest_hits_def)
  have bin: "astype_int (greater_than
        (map (linreg_fit replay_library (features_train ?s) (target_train ?s)) (features_valid ?s)) 0.5)
      = map (below 469) (rows 0 643)"
    by (simp add: binarize_map replay_library_def replay_env_def below_def)
  have la: "fraction_correct (target_valid ?s) (map (below 469) (rows 0 643)) = 469 / 643"
    by (simp add: replay_env_def fraction_below)
  have fa: "final_accuracy replay_library ?s = 504 / 643"
    by (simp add: final_accuracy_def replay_library_def replay_env_def fraction_below forest_hits_def)
  obtain s1 where r1: "dt_body replay_library 3 ?s = Inr s1" and v1: "accuracy s1 = 492 / 643"
    using dt_body_run [OF w, of replay_library 3] da by auto
  obtain s2 where r2: "rf_body replay_library 15 ?s = Inr s2" and v2: "accuracy s2 = 500 / 643"
    using rf_body_run [OF w replay_depth3, of replay_library 15] ra by auto
  obtain s3 where r3: "lr_cell replay_library ?s = Inr s3" and v3: "accuracy s3 = 469 / 643"
    using lr_cell_run [OF w, of replay_library] bin la by auto
  obtain s4 where r4: "test_cell replay_library ?s = Inr s4" and v4: "accuracy_test s4 = 504 / 643"
    using test_cell_run [OF w, of replay_library] fa by auto
  note th = accuracy_in_unit_interval [of "[1, 0, 1]" "[1, 1, 1]" "2 / 3" replay_library 3 ?s s1
      15 s2 s3 s4]
  from th sc have 0: "(0::real) \<le> 2 / 3 \<and> (2 / 3 :: real) \<le> 1" by blast
  from th r1 have 1: "0 \<le> accuracy s1 \<and> accuracy s1 \<le> 1 \<and>
      accuracy s1 = real (card {i. i < length (target_valid ?s) \<and>
              target_valid ?s ! i
                = tree_fit replay_library 12345 3 (features_train ?s) (target_train ?s)
                    (features_valid ?s ! i)})
        / real (length (target_valid ?s))"
    by blast
  from th r2 have 2: "0 \<le> accuracy s2 \<and> accuracy s2 \<le> 1" by blast
  from th r3 have 3: "0 \<le> accuracy s3 \<and> accuracy s3 \<le> 1" by blast
  from th r4 have 4: "0 \<le> accuracy_test s4 \<and> accuracy_test s4 \<le> 1" by blast
  from 1 v1 have c1: "real (card {i. i < length (target_valid ?s) \<and>
              target_valid ?s ! i
                = tree_fit replay_library 12345 3 (features_train ?s) (target_train ?s)
                    (features_valid ?s ! i)})
        / real (length (target_valid ?s)) = 492 / 643"
    by simp
  show ?thesis
    using sc 0 r1 1 v1 c1 r2 2 v2 r3 3 v3 r4 4 v4 by blast
qed

subsection \<open>The final evaluation (C2)\<close>

lemma final_accuracy_replay: "final_accuracy replay_library replay_env = 504 / 643"
  by (simp add: final_accuracy_def replay_library_def replay_env_def fraction_below forest_hits_def)

lemma final_accuracy_zero: "final_accuracy zero_library replay_env = 0"
  by (simp add: final_accuracy_def zero_library_def replay_library_def replay_env_def fraction_below)

text \<open>
  C2 (as amended). The Test Model cell refits a random forest with seed 12345, 15
  estimators and depth 3 on the training partition, predicts the test partition, stores the
  fraction of correct predictions as \<open>accuracy_test\<close> and prints it. It does so for
  every value of that accuracy: the code compares it with nothing, and the 50\% floor is
  stated only in the notebook's prose.
\<close>

theorem final_evaluation_refit:
  assumes "well_split s"
  shows "test_cell L s =
    Inr (s\<lparr>best_model := forest_fit L 12345 15 3 (features_train s) (target_train s),
           predictions_test :=
             map (forest_fit L 12345 15 3 (features_train s) (target_train s)) (features_test s),
           accuracy_test := final_accuracy L s,
           out := out s @ [Print [S ''Test Accuracy:'', R (final_accuracy L s)]]\<rparr>)"
  using assms by (rule test_cell_run)

text \<open>An instance: the recorded run, with test accuracy 504/643.\<close>

theorem final_evaluation_refit_witness:
  "well_split replay_env \<and>
   map_sum id (\<lambda>s. (accuracy_test s, out s)) (test_cell replay_library replay_env)
     = Inr (504 / 643, [Print [S ''Test Accuracy:'', R (504 / 643)]])"
  using final_evaluation_refit [OF well_split_replay, of replay_library] well_split_replay
  by (simp add: final_accuracy_replay) (simp add: replay_env_def)

text \<open>
  With a forest that is wrong on every test row the cell completes all the same and prints
  the accuracy 0: nothing compares the accuracy with the floor.
\<close>

theorem final_evaluation_no_floor_check:
  "map_sum id (\<lambda>s. (accuracy_test s, out s)) (test_cell zero_library replay_env)
     = Inr (0, [Print [S ''Test Accuracy:'', R 0]]) \<and> \<not> (0.5 < (0::real))"
  using test_cell_run [OF well_split_replay, of zero_library]
  by (simp add: final_accuracy_zero) (simp add: replay_env_def)

subsection \<open>A sweep without a positive accuracy\<close>

lemma track_all_zero:
  assumes "\<forall>c\<in>set cs. acc c = 0"
  shows "track acc store cs (0, b) = (0, b)"
  using assms by (intro track_unchanged) simp

lemma rf_sweep_all_zero_unbound:
  assumes "well_split s" and "best_est s = None" and "\<forall>e\<in>set cands. rf_accuracy L s e = 0"
  shows "rf_sweep L cands s = Inl (NameError ''best_est'')"
  using assms(2) by (intro rf_sweep_unbound [OF assms(1)]) (simp add: track_all_zero [OF assms(3)])

subsection \<open>The two-stage split (C4)\<close>

lemma ceil_fifth: "nat \<lceil>0.20 * real (n::nat)\<rceil> = (n + 4) div 5"
proof -
  have "0.20 * real n = of_int (int n) / of_int 5" by simp
  then have "\<lceil>0.20 * real n\<rceil> = - (- int n div 5)"
    by (simp only: ceiling_divide_eq_div)
  then show ?thesis by linarith
qed

lemma ceil_quarter: "nat \<lceil>0.25 * real (n::nat)\<rceil> = (n + 3) div 4"
proof -
  have "0.25 * real n = of_int (int n) / of_int 4" by simp
  then have "\<lceil>0.25 * real n\<rceil> = - (- int n div 4)"
    by (simp only: ceiling_divide_eq_div)
  then show ?thesis by linarith
qed

lemma zip_of_indices:
  "zip (map ((!) X) is) (map ((!) y) is) = map (\<lambda>i. (X ! i, y ! i)) is"
  by (induction "is") simp_all

lemma indices_cover:
  assumes "length y = length X"
  shows "map (\<lambda>i. (X ! i, y ! i)) [0..<length X] = zip X y"
  using assms by (intro nth_equalityI) simp_all

lemma train_test_split_cong:
  "permutation L' seed = permutation L seed \<Longrightarrow>
   train_test_split L' X y ts seed = train_test_split L X y ts seed"
  unfolding train_test_split_def Let_def by (erule ssubst) (rule refl)

lemma train_test_split_run:
  assumes len: "length y = length X" and ts: "0 < ts" "ts < 1"
    and nt: "nat \<lceil>ts * real (length X)\<rceil> < length X"
    and p: "mset (permutation L seed (length X)) = mset [0..<length X]"
  shows "\<exists>Xtr Xte ytr yte.
     train_test_split L X y ts seed = Inr (Xtr, Xte, ytr, yte) \<and>
     length Xte = nat \<lceil>ts * real (length X)\<rceil> \<and> length yte = length Xte \<and>
     length Xtr = length X - length Xte \<and> length ytr = length Xtr \<and>
     mset (zip Xtr ytr) + mset (zip Xte yte) = mset (zip X y)"
proof -
  let ?n = "length X"
  let ?k = "nat \<lceil>ts * real ?n\<rceil>"
  let ?P = "permutation L seed ?n"
  let ?h = "\<lambda>i. (X ! i, y ! i)"
  have lp: "length ?P = ?n" using mset_eq_length [OF p] by simp
  have dr: "take (?n - ?k) (drop ?k ?P) = drop ?k ?P" using lp by simp
  have run: "train_test_split L X y ts seed
      = Inr (map ((!) X) (drop ?k ?P), map ((!) X) (take ?k ?P),
             map ((!) y) (drop ?k ?P), map ((!) y) (take ?k ?P))"
    using len ts nt by (simp add: train_test_split_def Let_def dr)
  have "mset (map ?h (drop ?k ?P)) + mset (map ?h (take ?k ?P))
      = mset (map ?h (take ?k ?P @ drop ?k ?P))"
    by (simp only: map_append mset_append add.commute)
  also have "\<dots> = image_mset ?h (mset ?P)" by simp
  also have "\<dots> = mset (map ?h [0..<?n])" by (simp only: p mset_map)
  also have "\<dots> = mset (zip X y)" by (simp only: indices_cover [OF len])
  finally have cover: "mset (zip (map ((!) X) (drop ?k ?P)) (map ((!) y) (drop ?k ?P)))
      + mset (zip (map ((!) X) (take ?k ?P)) (map ((!) y) (take ?k ?P))) = mset (zip X y)"
    by (simp only: zip_of_indices)
  have l1: "length (map ((!) X) (take ?k ?P)) = ?k" using lp nt by simp
  have l2: "length (map ((!) X) (drop ?k ?P)) = ?n - ?k" using lp by simp
  show ?thesis
    using run cover l1 l2 by (intro exI conjI) (assumption, simp_all)
qed


lemma split_cell_run:
  assumes n3: "3 \<le> length (data s)"
    and p: "\<forall>n. mset (permutation L 12345 n) = mset [0..<n]"
  shows "\<exists>s'. split_cell L s = Inr s' \<and>
     length (features_test s') = (length (data s) + 4) div 5 \<and>
     length (features_valid s') = (length (data s) - (length (data s) + 4) div 5 + 3) div 4 \<and>
     length (features_train s') + length (features_valid s') + length (features_test s')
       = length (data s) \<and>
     length (target_train s') = length (features_train s') \<and>
     length (target_valid s') = length (features_valid s') \<and>
     length (target_test s') = length (features_test s') \<and>
     mset (zip (features_train s') (target_train s')) + mset (zip (features_valid s') (target_valid s'))
       + mset (zip (features_test s') (target_test s'))
       = mset (map (\<lambda>r. (drop_is_ultra r, is_ultra r)) (data s)) \<and>
     best_est s' = best_est s \<and> well_split s'"
proof -
  let ?N = "length (data s)"
  let ?X = "map drop_is_ultra (data s)"
  let ?y = "map is_ultra (data s)"
  have k1: "nat \<lceil>0.20 * real (length ?X)\<rceil> = (?N + 4) div 5" by (simp only: ceil_fifth length_map)
  have lt1: "nat \<lceil>0.20 * real (length ?X)\<rceil> < length ?X" unfolding k1 using n3 by simp
  from train_test_split_run [of ?y ?X "0.20" L 12345, OF _ _ _ lt1] p
  obtain Xtv Xte ytv yte where
    s1: "train_test_split L ?X ?y 0.20 12345 = Inr (Xtv, Xte, ytv, yte)"
    and te: "length Xte = (?N + 4) div 5" "length yte = length Xte"
    and tv: "length Xtv = ?N - length Xte" "length ytv = length Xtv"
    and c1: "mset (zip Xtv ytv) + mset (zip Xte yte) = mset (zip ?X ?y)"
    unfolding k1 by auto
  have k2: "nat \<lceil>0.25 * real (length Xtv)\<rceil> = (length Xtv + 3) div 4" by (rule ceil_quarter)
  have "(length Xtv + 3) div 4 < length Xtv" using n3 tv(1) te(1) by linarith
  then have lt2: "nat \<lceil>0.25 * real (length Xtv)\<rceil> < length Xtv" by (simp only: k2)
  from train_test_split_run [of ytv Xtv "0.25" L 12345, OF tv(2) _ _ lt2] p
  obtain Xtr Xva ytr yva where
    s2: "train_test_split L Xtv ytv 0.25 12345 = Inr (Xtr, Xva, ytr, yva)"
    and va: "length Xva = (length Xtv + 3) div 4" "length yva = length Xva"
    and tr: "length Xtr = length Xtv - length Xva" "length ytr = length Xtr"
    and c2: "mset (zip Xtr ytr) + mset (zip Xva yva) = mset (zip Xtv ytv)"
    unfolding k2 by auto
  let ?s' = "s\<lparr>features := ?X, target := ?y, features_train_val := Xtv, features_test := Xte,
        target_train_val := ytv, target_test := yte, features_train := Xtr,
        features_valid := Xva, target_train := ytr, target_valid := yva,
        out := out s @ [Print [S ''Training Size:'', I (int (length Xtr)), R (3214 * 0.6)],
                        Print [S ''Validation Size:'', I (int (length Xva)), R (3214 * 0.2)],
                        Print [S ''Test Size:'', I (int (length Xte)), R (3214 * 0.2)]]\<rparr>"
  have run: "split_cell L s = Inr ?s'"
    using s1 s2 by (simp add: split_cell_def Let_def print_def)
  have zipd: "zip ?X ?y = map (\<lambda>r. (drop_is_ultra r, is_ultra r)) (data s)"
    by (simp add: zip_map_map zip_same_conv_map)
  have cover: "mset (zip Xtr ytr) + mset (zip Xva yva) + mset (zip Xte yte)
      = mset (map (\<lambda>r. (drop_is_ultra r, is_ultra r)) (data s))"
    using c1 c2 zipd by simp
  have "length Xva \<le> length Xtv" using va(1) by linarith
  moreover have "length Xte \<le> ?N" using te(1) n3 by linarith
  ultimately have sum: "length Xtr + length Xva + length Xte = ?N"
    using tr(1) tv(1) by linarith
  have vs: "length Xva = (?N - (?N + 4) div 5 + 3) div 4"
    using va(1) tv(1) te(1) by simp
  have "0 < length Xte" using te(1) n3 by linarith
  moreover have "0 < length Xva" using vs n3 by linarith
  ultimately have ws: "well_split ?s'" using te(2) va(2) by (auto simp add: well_split_def)
  show ?thesis
    using run te tr(2) va(2) cover sum vs ws by (intro exI [of _ ?s']) simp
qed

lemma split_sizes_nominal:
  fixes N te va tr :: nat
  assumes "3 \<le> N" and "te = (N + 4) div 5" and "va = (N - (N + 4) div 5 + 3) div 4"
    and "tr + va + te = N"
  shows "N \<le> 5 * te \<and> 5 * te \<le> N + 4 \<and> N \<le> 5 * va + 1 \<and> 5 * va \<le> N + 3 \<and>
    5 * tr \<le> 3 * N \<and> 3 * N \<le> 5 * tr + 6"
proof -
  have e1: "5 * te + (N + 4) mod 5 = N + 4" unfolding assms(2) by simp
  have m1: "(N + 4) mod 5 < 5" by simp
  have e2: "4 * va + (N - te + 3) mod 4 = N - te + 3" unfolding assms(2,3) by simp
  have m2: "(N - te + 3) mod 4 < 4" by simp
  from e1 m1 have t: "N \<le> 5 * te" "5 * te \<le> N + 4" by linarith+
  from t assms(1) have le: "te \<le> N" by linarith
  from e2 m2 le have v: "N - te \<le> 4 * va" "4 * va \<le> N - te + 3" by linarith+
  show ?thesis using t v le assms(4) by linarith
qed

lemma train_test_split_refuses:
  "length X \<le> nat \<lceil>ts * real (length X)\<rceil> \<Longrightarrow> train_test_split L X y ts seed = Inl ValueError"
  by (simp add: train_test_split_def Let_def)

lemma split_cell_refuses:
  assumes "length (data s) < 3" and p: "\<forall>n. mset (permutation L 12345 n) = mset [0..<n]"
  shows "split_cell L s = Inl ValueError"
proof (cases "length (data s) < 2")
  case True
  have "length (map drop_is_ultra (data s))
      \<le> nat \<lceil>0.20 * real (length (map drop_is_ultra (data s)))\<rceil>"
    unfolding ceil_fifth using True by simp
  from train_test_split_refuses [OF this, of L "map is_ultra (data s)" 12345]
  show ?thesis by (simp add: split_cell_def Let_def)
next
  case False
  with assms(1) have n2: "length (data s) = 2" by simp
  let ?X = "map drop_is_ultra (data s)"
  let ?y = "map is_ultra (data s)"
  have lt1: "nat \<lceil>0.20 * real (length ?X)\<rceil> < length ?X"
    unfolding ceil_fifth using n2 by simp
  from train_test_split_run [of ?y ?X "0.20" L 12345, OF _ _ _ lt1] p
  obtain Xtv Xte ytv yte where
    s1: "train_test_split L ?X ?y 0.20 12345 = Inr (Xtv, Xte, ytv, yte)"
    and te: "length Xte = nat \<lceil>0.20 * real (length ?X)\<rceil>"
    and tv: "length Xtv = length ?X - length Xte"
    by auto
  have "length Xtv = 1" unfolding tv te ceil_fifth using n2 by simp
  then have "length Xtv \<le> nat \<lceil>0.25 * real (length Xtv)\<rceil>"
    unfolding ceil_quarter by simp
  from train_test_split_refuses [OF this, of L ytv 12345]
  show ?thesis using s1 by (simp add: split_cell_def Let_def)
qed

lemma split_cell_reproducible:
  assumes "permutation L' 12345 = permutation L 12345" and "data s' = data s"
  shows "map_sum id partitions (split_cell L' s') = map_sum id partitions (split_cell L s)"
  using assms(2)
  by (simp add: split_cell_def Let_def train_test_split_cong [OF assms(1)] print_def
      partitions_def split: sum.splits prod.splits)


lemma five_library_permutes: "\<forall>n. mset (permutation five_library 12345 n) = mset [0..<n]"
  by (simp add: five_library_def replay_library_def)

text \<open>
  C4 (as amended). When the seeded permutations are permutations of the row indices, the
  Split cell succeeds on every dataset of at least three rows (on a smaller one the second
  split would leave no training row, and the cell ends with an error). The test partition
  then has a fifth of the \<open>N\<close> rows, rounded up, the validation partition a quarter of
  the remainder, rounded up, and the training partition the rest: the three sizes sum to
  \<open>N\<close>, the test size is at most 4/5 of a row above \<open>N / 5\<close>, the validation size
  between 1/5 of a row below and 3/5 of a row above \<open>N / 5\<close>, the training size at most
  6/5 of a row below \<open>3 N / 5\<close>, and the shares are exactly 60/20/20 when 5 divides
  \<open>N\<close>. Every row, with its label, is in exactly one partition, and the validation and
  test partitions are not empty (\<open>well_split\<close>). The partitions depend on
  the data and on the permutations drawn for seed 12345 alone, so a second run with the
  same seed on the same data yields the same partitions.
\<close>

theorem two_stage_split_sizes:
  assumes "\<forall>n. mset (permutation L 12345 n) = mset [0..<n]"
  shows "(3 \<le> length (data s) \<longrightarrow>
      (\<exists>s'. split_cell L s = Inr s' \<and>
         length (features_train s') + length (features_valid s') + length (features_test s')
           = length (data s) \<and>
         length (features_test s') = (length (data s) + 4) div 5 \<and>
         length (features_valid s') = (length (data s) - length (features_test s') + 3) div 4 \<and>
         length (data s) \<le> 5 * length (features_test s') \<and>
         5 * length (features_test s') \<le> length (data s) + 4 \<and>
         length (data s) \<le> 5 * length (features_valid s') + 1 \<and>
         5 * length (features_valid s') \<le> length (data s) + 3 \<and>
         5 * length (features_train s') \<le> 3 * length (data s) \<and>
         3 * length (data s) \<le> 5 * length (features_train s') + 6 \<and>
         (5 dvd length (data s) \<longrightarrow>
            5 * length (features_train s') = 3 * length (data s) \<and>
            5 * length (features_valid s') = length (data s) \<and>
            5 * length (features_test s') = length (data s)) \<and>
         length (target_train s') = length (features_train s') \<and>
         length (target_valid s') = length (features_valid s') \<and>
         length (target_test s') = length (features_test s') \<and>
         mset (zip (features_train s') (target_train s'))
           + mset (zip (features_valid s') (target_valid s'))
           + mset (zip (features_test s') (target_test s'))
           = mset (map (\<lambda>r. (drop_is_ultra r, is_ultra r)) (data s)) \<and>
         well_split s')) \<and>
     (length (data s) < 3 \<longrightarrow> split_cell L s = Inl ValueError) \<and>
     (\<forall>L' s'. permutation L' 12345 = permutation L 12345 \<and> data s' = data s \<longrightarrow>
        map_sum id partitions (split_cell L' s') = map_sum id partitions (split_cell L s))"
proof (intro conjI impI allI)
  assume n3: "3 \<le> length (data s)"
  let ?N = "length (data s)"
  from split_cell_run [OF n3 assms] obtain s' where
    run: "split_cell L s = Inr s'"
    and te: "length (features_test s') = (?N + 4) div 5"
    and va: "length (features_valid s') = (?N - (?N + 4) div 5 + 3) div 4"
    and sum: "length (features_train s') + length (features_valid s') + length (features_test s') = ?N"
    and lab: "length (target_train s') = length (features_train s')"
      "length (target_valid s') = length (features_valid s')"
      "length (target_test s') = length (features_test s')"
    and cover: "mset (zip (features_train s') (target_train s'))
           + mset (zip (features_valid s') (target_valid s'))
           + mset (zip (features_test s') (target_test s'))
           = mset (map (\<lambda>r. (drop_is_ultra r, is_ultra r)) (data s))"
    and ws: "well_split s'"
    by blast
  note b = split_sizes_nominal [OF n3 te va sum]
  have va': "length (features_valid s') = (?N - length (features_test s') + 3) div 4"
    using va te by simp
  have exact: "5 dvd ?N \<longrightarrow>
      5 * length (features_train s') = 3 * ?N \<and> 5 * length (features_valid s') = ?N \<and>
      5 * length (features_test s') = ?N"
  proof
    assume "5 dvd ?N"
    then obtain k where k: "?N = 5 * k" by (rule dvdE)
    have t: "length (features_test s') = k" using te k by simp
    have v: "length (features_valid s') = k" using va' t k by simp
    show "5 * length (features_train s') = 3 * ?N \<and> 5 * length (features_valid s') = ?N \<and>
      5 * length (features_test s') = ?N"
      using sum t v k by simp
  qed
  show "\<exists>s'. split_cell L s = Inr s' \<and>
         length (features_train s') + length (features_valid s') + length (features_test s')
           = length (data s) \<and>
         length (features_test s') = (length (data s) + 4) div 5 \<and>
         length (features_valid s') = (length (data s) - length (features_test s') + 3) div 4 \<and>
         length (data s) \<le> 5 * length (features_test s') \<and>
         5 * length (features_test s') \<le> length (data s) + 4 \<and>
         length (data s) \<le> 5 * length (features_valid s') + 1 \<and>
         5 * length (features_valid s') \<le> length (data s) + 3 \<and>
         5 * length (features_train s') \<le> 3 * length (data s) \<and>
         3 * length (data s) \<le> 5 * length (features_train s') + 6 \<and>
         (5 dvd length (data s) \<longrightarrow>
            5 * length (features_train s') = 3 * length (data s) \<and>
            5 * length (features_valid s') = length (data s) \<and>
            5 * length (features_test s') = length (data s)) \<and>
         length (target_train s') = length (features_train s') \<and>
         length (target_valid s') = length (features_valid s') \<and>
         length (target_test s') = length (features_test s') \<and>
         mset (zip (features_train s') (target_train s'))
           + mset (zip (features_valid s') (target_valid s'))
           + mset (zip (features_test s') (target_test s'))
           = mset (map (\<lambda>r. (drop_is_ultra r, is_ultra r)) (data s)) \<and>
         well_split s'"
    using run sum te va' b exact lab cover ws by (intro exI [of _ s']) blast
next
  assume "length (data s) < 3"
  then show "split_cell L s = Inl ValueError" using assms by (rule split_cell_refuses)
next
  fix L' :: library and s' :: env
  assume "permutation L' 12345 = permutation L 12345 \<and> data s' = data s"
  then show "map_sum id partitions (split_cell L' s') = map_sum id partitions (split_cell L s)"
    using split_cell_reproducible by blast
qed

text \<open>Instances: five rows, which split 3/1/1; no rows; and a second library with the same permutations.\<close>

theorem two_stage_split_sizes_witness:
  "(\<forall>n. mset (permutation five_library 12345 n) = mset [0..<n]) \<and>
   3 \<le> length (data (replay_env\<lparr>data := five_rows\<rparr>)) \<and>
   5 dvd length (data (replay_env\<lparr>data := five_rows\<rparr>)) \<and>
   (\<exists>s'. split_cell five_library (replay_env\<lparr>data := five_rows\<rparr>) = Inr s' \<and>
      length (features_train s') = 3 \<and> length (features_valid s') = 1 \<and>
      length (features_test s') = 1) \<and>
   length (data replay_env) < 3 \<and>
   split_cell five_library replay_env = Inl ValueError \<and>
   permutation unlucky_library 12345 = permutation five_library 12345 \<and>
   data (replay_env\<lparr>data := five_rows, out := [Print []]\<rparr>) = data (replay_env\<lparr>data := five_rows\<rparr>) \<and>
   map_sum id partitions (split_cell unlucky_library (replay_env\<lparr>data := five_rows, out := [Print []]\<rparr>))
     = map_sum id partitions (split_cell five_library (replay_env\<lparr>data := five_rows\<rparr>))"
proof -
  note th1 = two_stage_split_sizes [OF five_library_permutes, of "replay_env\<lparr>data := five_rows\<rparr>"]
  note th2 = two_stage_split_sizes [OF five_library_permutes, of replay_env]
  have n: "length (data (replay_env\<lparr>data := five_rows\<rparr>)) = 5" by (simp add: five_rows_def)
  have n0: "length (data replay_env) < 3" by (simp add: replay_env_def)
  have pe: "permutation unlucky_library 12345 = permutation five_library 12345"
    by (simp add: unlucky_library_def)
  have de: "data (replay_env\<lparr>data := five_rows, out := [Print []]\<rparr>) = data (replay_env\<lparr>data := five_rows\<rparr>)"
    by simp
  from th1 n obtain s' where
    "split_cell five_library (replay_env\<lparr>data := five_rows\<rparr>) = Inr s'"
    "length (features_test s') = (5 + 4) div 5"
    "length (features_valid s') = (5 - length (features_test s') + 3) div 4"
    "length (features_train s') + length (features_valid s') + length (features_test s') = 5"
    by auto
  then have 1: "\<exists>s'. split_cell five_library (replay_env\<lparr>data := five_rows\<rparr>) = Inr s' \<and>
      length (features_train s') = 3 \<and> length (features_valid s') = 1 \<and>
      length (features_test s') = 1"
    by (intro exI [of _ s']) simp
  from th2 n0 have 2: "split_cell five_library replay_env = Inl ValueError" by blast
  from th1 pe de have 3:
    "map_sum id partitions (split_cell unlucky_library (replay_env\<lparr>data := five_rows, out := [Print []]\<rparr>))
     = map_sum id partitions (split_cell five_library (replay_env\<lparr>data := five_rows\<rparr>))"
    by blast
  show ?thesis using five_library_permutes n n0 pe 1 2 3 by simp
qed

text \<open>
  On 3214 rows the sizes are 1928, 643 and 643, as the notebook recorded; they are not
  60\%, 20\% and 20\% of 3214. On two rows the split ends with an error.
\<close>

theorem two_stage_split_not_exact:
  "map_sum id (\<lambda>s. (length (features_train s), length (features_valid s), length (features_test s)))
     (split_cell five_library
        (replay_env\<lparr>data := replicate 3214
           \<lparr>calls = 0, minutes = 0, messages = 0, mb_used = 0, is_ultra = 0\<rparr>\<rparr>))
     = Inr (1928, 643, 643) \<and>
   (1928 :: real) \<noteq> 0.6 * 3214 \<and> (643 :: real) \<noteq> 0.2 * 3214 \<and>
   split_cell five_library (replay_env\<lparr>data := take 2 five_rows\<rparr>) = Inl ValueError"
proof -
  let ?s = "replay_env\<lparr>data := replicate 3214
           \<lparr>calls = 0, minutes = 0, messages = 0, mb_used = 0, is_ultra = 0\<rparr>\<rparr>"
  have n: "length (data ?s) = 3214" by simp
  then have "3 \<le> length (data ?s)" by simp
  from split_cell_run [OF this five_library_permutes] n obtain s' where
    run: "split_cell five_library ?s = Inr s'"
    and te: "length (features_test s') = (3214 + 4) div 5"
    and va: "length (features_valid s') = (3214 - (3214 + 4) div 5 + 3) div 4"
    and sum: "length (features_train s') + length (features_valid s') + length (features_test s') = 3214"
    by auto
  have "length (features_test s') = 643" using te by simp
  moreover have "length (features_valid s') = 643" using va by simp
  ultimately have "length (features_train s') = 1928" using sum by simp
  have 1: "map_sum id (\<lambda>s. (length (features_train s), length (features_valid s), length (features_test s)))
     (split_cell five_library ?s) = Inr (1928, 643, 643)"
    using run \<open>length (features_test s') = 643\<close> \<open>length (features_valid s') = 643\<close>
      \<open>length (features_train s') = 1928\<close> by simp
  have "length (data (replay_env\<lparr>data := take 2 five_rows\<rparr>)) < 3" by (simp add: five_rows_def)
  from split_cell_refuses [OF this five_library_permutes]
  have 2: "split_cell five_library (replay_env\<lparr>data := take 2 five_rows\<rparr>) = Inl ValueError" .
  show ?thesis using 1 2 by simp
qed

subsection \<open>The lines of the decision-tree sweep (C5)\<close>

lemma dt_accuracy_replay:
  "partitions s = partitions replay_env \<Longrightarrow>
   dt_accuracy replay_library s d = real (nat (min 643 (tree_hits d))) / 643"
  by (simp add: partitions_def dt_accuracy_def replay_library_def replay_env_def fraction_below)

lemma rf_accuracy_replay:
  "partitions s = partitions replay_env \<Longrightarrow>
   rf_accuracy replay_library s e = real (nat (min 643 (forest_hits e))) / 643"
  by (simp add: partitions_def rf_accuracy_def replay_library_def replay_env_def fraction_below)

lemma well_split_replay_like: "partitions s = partitions replay_env \<Longrightarrow> well_split s"
  using well_split_replay well_split_cong [of s replay_env] by simp

lemma partitions_replay_updates [simp]:
  "partitions (s\<lparr>best_accuracy := a\<rparr>) = partitions s"
  "partitions (s\<lparr>best_depth := d\<rparr>) = partitions s"
  "partitions (s\<lparr>depth := d\<rparr>) = partitions s"
  "partitions (s\<lparr>model := m\<rparr>) = partitions s"
  "partitions (s\<lparr>predictions_valid := p\<rparr>) = partitions s"
  "partitions (s\<lparr>accuracy := a\<rparr>) = partitions s"
  "partitions (s\<lparr>out := ls\<rparr>) = partitions s"
  by (simp_all add: partitions_def)

text \<open>
  C5. On the recorded run, the decision-tree sweep labels the lines of depths 1 to 5 with
  0, 1, 2, 3 and 3: each line carries \<open>best_depth\<close> as it stood before the
  iteration's update, not the depth whose accuracy stands on the same line. This is,
  token for token, the output stored in the notebook.
\<close>

theorem dt_sweep_prints_previous_best:
  "map_sum id out (dt_cell replay_library replay_env) =
     Inr [Print [S ''max_depth ='', I 0, S '': '', R (475 / 643)],
          Print [S ''max_depth ='', I 1, S '': '', R (487 / 643)],
          Print [S ''max_depth ='', I 2, S '': '', R (492 / 643)],
          Print [S ''max_depth ='', I 3, S '': '', R (491 / 643)],
          Print [S ''max_depth ='', I 3, S '': '', R (488 / 643)],
          Print [], Print [S ''Best Paramaters''],
          Print [S ''max_depth ='', I 3, S '':'', R (492 / 643)]]"
  by (simp add: dt_cell_def py_range_1_6 dt_body_run well_split_replay_like dt_accuracy_replay
      tree_hits_def print_def) (simp add: replay_env_def)

subsection \<open>What a sweep selects (C1)\<close>

lemma dt_accuracy_nonneg [simp]: "0 \<le> dt_accuracy L s d"
  by (simp add: dt_accuracy_def)

lemma rf_accuracy_nonneg [simp]: "0 \<le> rf_accuracy L s e"
  by (simp add: rf_accuracy_def)

lemma dt_cell_selects:
  assumes "well_split s"
  shows "\<exists>s'. dt_cell L s = Inr s' \<and> partitions s' = partitions s \<and> best_est s' = best_est s \<and>
     best_accuracy s' = Max (dt_accuracy L s ` set (py_range 1 6 1)) \<and>
     ((\<exists>d\<in>set (py_range 1 6 1). 0 < dt_accuracy L s d) \<longrightarrow>
        first_maximal (dt_accuracy L s) (py_range 1 6 1) = Some (best_depth s'))"
proof -
  let ?cs = "py_range 1 6 1"
  let ?t = "track (dt_accuracy L s) (\<lambda>d. d) ?cs (0, 0)"
  from dt_cell_run [OF assms, of L] obtain s' where
    s': "dt_cell L s = Inr s'" "partitions s' = partitions s" "best_est s' = best_est s"
        "(best_accuracy s', best_depth s') = ?t"
    by blast
  have ne: "?cs \<noteq> []" by (simp add: py_range_1_6)
  have "fst ?t = Max (dt_accuracy L s ` set ?cs)"
    by (rule track_fst_Max [OF ne]) simp
  then have a: "best_accuracy s' = Max (dt_accuracy L s ` set ?cs)"
    using s'(4) by (metis fst_conv)
  have b: "first_maximal (dt_accuracy L s) ?cs = Some (best_depth s')"
    if "\<exists>d\<in>set ?cs. 0 < dt_accuracy L s d"
  proof -
    from that have "\<exists>d\<in>set ?cs. fst (0::real, 0::int) < dt_accuracy L s d" by simp
    from track_snd [OF this, of "\<lambda>d. d"] obtain c where
      "first_maximal (dt_accuracy L s) ?cs = Some c" "snd ?t = c" by blast
    then show ?thesis using s'(4) by (metis snd_conv)
  qed
  show ?thesis using s'(1,2,3) a b by blast
qed

lemma rf_sweep_selects:
  assumes "well_split s" and "\<exists>e\<in>set cands. 0 < rf_accuracy L s e"
  shows "\<exists>s'. rf_sweep L cands s = Inr s' \<and> partitions s' = partitions s \<and>
     best_accuracy s' = Max (rf_accuracy L s ` set cands) \<and>
     first_maximal (rf_accuracy L s) cands = best_est s'"
proof -
  let ?t = "track (rf_accuracy L s) Some cands (0, best_est s)"
  from assms(2) have "\<exists>e\<in>set cands. fst (0::real, best_est s) < rf_accuracy L s e" by simp
  from track_snd [OF this, of Some] obtain c where
    c: "first_maximal (rf_accuracy L s) cands = Some c" "snd ?t = Some c" by blast
  from rf_sweep_bound [OF assms(1) c(2)] obtain s' where
    s': "rf_sweep L cands s = Inr s'" "partitions s' = partitions s" "best_est s' = Some c"
        "best_accuracy s' = fst ?t"
    by blast
  have ne: "cands \<noteq> []" using assms(2) by auto
  have "fst ?t = Max (rf_accuracy L s ` set cands)"
    by (rule track_fst_Max [OF ne]) simp
  then show ?thesis using s' c(1) by auto
qed

text \<open>
  C1 (as amended). After a successful split, the decision-tree sweep ends with
  \<open>best_accuracy\<close> equal to the maximum validation accuracy over its candidates. When
  at least one candidate of a sweep has an accuracy strictly greater than 0, that sweep
  (the decision-tree sweep or either random-forest sweep) ends with \<open>best_accuracy\<close>
  equal to the maximum over its candidates, so that no strictly better candidate is
  skipped, and the selected hyperparameter (\<open>best_depth\<close>, \<open>best_est\<close>) is the first
  candidate in iteration order that attains that maximum, because only a strictly greater
  accuracy replaces the best, which starts at 0.
\<close>

theorem sweep_selects_first_maximum:
  assumes "well_split s"
  shows "(\<exists>s'. dt_cell L s = Inr s' \<and>
            best_accuracy s' = Max (dt_accuracy L s ` set (py_range 1 6 1)) \<and>
            ((\<exists>d\<in>set (py_range 1 6 1). 0 < dt_accuracy L s d) \<longrightarrow>
               first_maximal (dt_accuracy L s) (py_range 1 6 1) = Some (best_depth s'))) \<and>
         ((\<exists>e\<in>set (py_range 10 51 10). 0 < rf_accuracy L s e) \<longrightarrow>
            (\<exists>s'. rf_cell1 L s = Inr s' \<and>
               best_accuracy s' = Max (rf_accuracy L s ` set (py_range 10 51 10)) \<and>
               first_maximal (rf_accuracy L s) (py_range 10 51 10) = best_est s')) \<and>
         ((\<exists>e\<in>set (py_range 1 21 1). 0 < rf_accuracy L s e) \<longrightarrow>
            (\<exists>s'. rf_cell2 L s = Inr s' \<and>
               best_accuracy s' = Max (rf_accuracy L s ` set (py_range 1 21 1)) \<and>
               first_maximal (rf_accuracy L s) (py_range 1 21 1) = best_est s'))"
proof (intro conjI impI)
  show "\<exists>s'. dt_cell L s = Inr s' \<and>
            best_accuracy s' = Max (dt_accuracy L s ` set (py_range 1 6 1)) \<and>
            ((\<exists>d\<in>set (py_range 1 6 1). 0 < dt_accuracy L s d) \<longrightarrow>
               first_maximal (dt_accuracy L s) (py_range 1 6 1) = Some (best_depth s'))"
    using dt_cell_selects [OF assms, of L] by blast
next
  assume "\<exists>e\<in>set (py_range 10 51 10). 0 < rf_accuracy L s e"
  from rf_sweep_selects [OF assms this]
  show "\<exists>s'. rf_cell1 L s = Inr s' \<and>
               best_accuracy s' = Max (rf_accuracy L s ` set (py_range 10 51 10)) \<and>
               first_maximal (rf_accuracy L s) (py_range 10 51 10) = best_est s'"
    unfolding rf_cell1_def by blast
next
  assume "\<exists>e\<in>set (py_range 1 21 1). 0 < rf_accuracy L s e"
  from rf_sweep_selects [OF assms this]
  show "\<exists>s'. rf_cell2 L s = Inr s' \<and>
               best_accuracy s' = Max (rf_accuracy L s ` set (py_range 1 21 1)) \<and>
               first_maximal (rf_accuracy L s) (py_range 1 21 1) = best_est s'"
    unfolding rf_cell2_def by blast
qed

lemma replay_self: "partitions replay_env = partitions replay_env"
  by (rule refl)

text \<open>An instance: the recorded run selects depth 3, then 10 and 15 estimators.\<close>

theorem sweep_selects_first_maximum_witness:
  "well_split replay_env \<and>
   (\<exists>s'. dt_cell replay_library replay_env = Inr s' \<and>
      best_accuracy s' = 492 / 643 \<and> best_depth s' = 3) \<and>
   0 < rf_accuracy replay_library replay_env 10 \<and>
   (\<exists>s'. rf_cell1 replay_library replay_env = Inr s' \<and>
      best_accuracy s' = 496 / 643 \<and> best_est s' = Some 10) \<and>
   0 < rf_accuracy replay_library replay_env 1 \<and>
   (\<exists>s'. rf_cell2 replay_library replay_env = Inr s' \<and>
      best_accuracy s' = 500 / 643 \<and> best_est s' = Some 15)"
proof -
  note th = sweep_selects_first_maximum [OF well_split_replay, of replay_library]
  note dt = dt_accuracy_replay [OF replay_self]
  note rf = rf_accuracy_replay [OF replay_self]
  have m0: "Max (dt_accuracy replay_library replay_env ` set (py_range 1 6 1)) = 492 / 643"
    by (simp add: py_range_1_6 dt tree_hits_def)
  have f0: "first_maximal (dt_accuracy replay_library replay_env) (py_range 1 6 1) = Some 3"
    by (simp add: py_range_1_6 dt tree_hits_def first_maximal_def)
  have p0: "\<exists>d\<in>set (py_range 1 6 1). 0 < dt_accuracy replay_library replay_env d"
    by (simp add: py_range_1_6 dt tree_hits_def)
  have m1: "Max (rf_accuracy replay_library replay_env ` set (py_range 10 51 10)) = 496 / 643"
    by (simp add: py_range_10_51 rf forest_hits_def)
  have f1: "first_maximal (rf_accuracy replay_library replay_env) (py_range 10 51 10) = Some 10"
    by (simp add: py_range_10_51 rf forest_hits_def first_maximal_def)
  have p1: "0 < rf_accuracy replay_library replay_env 10"
    by (simp add: rf forest_hits_def)
  then have p1': "\<exists>e\<in>set (py_range 10 51 10). 0 < rf_accuracy replay_library replay_env e"
    by (auto simp add: py_range_10_51)
  have m2: "Max (rf_accuracy replay_library replay_env ` set (py_range 1 21 1)) = 500 / 643"
    by (simp add: py_range_1_21 rf forest_hits_def)
  have f2: "first_maximal (rf_accuracy replay_library replay_env) (py_range 1 21 1) = Some 15"
    by (simp add: py_range_1_21 rf forest_hits_def first_maximal_def)
  have p2: "0 < rf_accuracy replay_library replay_env 1"
    by (simp add: rf forest_hits_def)
  then have p2': "\<exists>e\<in>set (py_range 1 21 1). 0 < rf_accuracy replay_library replay_env e"
    by (auto simp add: py_range_1_21)
  from th p0 have 0: "\<exists>s'. dt_cell replay_library replay_env = Inr s' \<and>
      best_accuracy s' = 492 / 643 \<and> best_depth s' = 3"
    unfolding m0 f0 by auto
  from th p1' have 1: "\<exists>s'. rf_cell1 replay_library replay_env = Inr s' \<and>
      best_accuracy s' = 496 / 643 \<and> best_est s' = Some 10"
    unfolding m1 f1 by auto
  from th p2' have 2: "\<exists>s'. rf_cell2 replay_library replay_env = Inr s' \<and>
      best_accuracy s' = 500 / 643 \<and> best_est s' = Some 15"
    unfolding m2 f2 by auto
  show ?thesis using well_split_replay 0 1 2 p1 p2 by blast
qed

lemma dt_accuracy_zero: "dt_accuracy zero_library replay_env d = 0"
  by (simp add: dt_accuracy_def zero_library_def replay_library_def replay_env_def fraction_below)

lemma rf_accuracy_zero:
  "partitions s = partitions replay_env \<Longrightarrow>
   rf_accuracy zero_library s e = (if e = 30 then 1 else 0)"
  by (simp add: partitions_def rf_accuracy_def zero_library_def replay_library_def replay_env_def
      fraction_below)

text \<open>
  When every depth has accuracy 0, the first candidate that attains the maximum is depth 1,
  but the sweep ends with \<open>best_depth = 0\<close>.
\<close>

theorem all_zero_sweep_selects_no_candidate:
  "map (dt_accuracy zero_library replay_env) (py_range 1 6 1) = [0, 0, 0, 0, 0] \<and>
   first_maximal (dt_accuracy zero_library replay_env) (py_range 1 6 1) = Some 1 \<and>
   map_sum id best_depth (dt_cell zero_library replay_env) = Inr 0"
proof -
  from dt_cell_run [OF well_split_replay, of zero_library] obtain s' where
    s': "dt_cell zero_library replay_env = Inr s'"
      "(best_accuracy s', best_depth s')
         = track (dt_accuracy zero_library replay_env) (\<lambda>d. d) (py_range 1 6 1) (0, 0)"
    by blast
  have "track (dt_accuracy zero_library replay_env) (\<lambda>d. d) (py_range 1 6 1) (0, 0::int) = (0, 0)"
    by (rule track_all_zero) (simp add: dt_accuracy_zero)
  then have "best_depth s' = 0" using s'(2) by simp
  then show ?thesis
    using s'(1) by (simp add: py_range_1_6 dt_accuracy_zero first_maximal_def)
qed

subsection \<open>What the cells leave unchanged\<close>

lemma for_loop_preserves:
  assumes "\<And>c t t'. body c t = Inr t' \<Longrightarrow> f t' = f t" and "for_loop body cs s = Inr s'"
  shows "f s' = f s"
  using assms(2)
proof (induction cs arbitrary: s)
  case Nil
  then show ?case by simp
next
  case (Cons c cs)
  from Cons.prems obtain t where t: "body c s = Inr t" "for_loop body cs t = Inr s'"
    by (auto split: sum.splits)
  from Cons.IH [OF t(2)] assms(1) [OF t(1)] show ?case by simp
qed

lemma dt_body_frame:
  "dt_body L d s = Inr s' \<Longrightarrow> (partitions s', best_est s') = (partitions s, best_est s)"
  by (auto simp add: dt_body_def Let_def print_def partitions_def split: sum.splits if_splits)

lemma rf_body_frame:
  "rf_body L e s = Inr s' \<Longrightarrow> (partitions s', best_depth s') = (partitions s, best_depth s)"
  by (auto simp add: rf_body_def Let_def print_def partitions_def split: sum.splits if_splits)

lemma dt_cell_frame:
  assumes "dt_cell L s = Inr s'"
  shows "partitions s' = partitions s" and "best_est s' = best_est s"
proof -
  from assms obtain t where
    t: "for_loop (dt_body L) (py_range 1 6 1) (s\<lparr>best_accuracy := 0, best_depth := 0\<rparr>) = Inr t"
    and s': "s' = print [S ''max_depth ='', I (best_depth t), S '':'', R (best_accuracy t)]
                (print [S ''Best Paramaters''] (print [] t))"
    by (auto simp add: dt_cell_def split: sum.splits)
  from for_loop_preserves [of "dt_body L" "\<lambda>s. (partitions s, best_est s)", OF dt_body_frame t]
  have "(partitions t, best_est t) = (partitions s, best_est s)" by (simp add: partitions_def)
  then show "partitions s' = partitions s" and "best_est s' = best_est s"
    unfolding s' by (simp_all add: print_def partitions_def)
qed

lemma rf_sweep_frame:
  assumes "rf_sweep L cands s = Inr s'"
  shows "partitions s' = partitions s" and "best_depth s' = best_depth s"
    and "best_est s' \<noteq> None"
proof -
  from assms obtain t b where
    t: "for_loop (rf_body L) cands (s\<lparr>best_accuracy := 0, best_estimators := 0, depth := 3\<rparr>) = Inr t"
    and b: "best_est t = Some b"
    and s': "s' = print [S ''Estimators:'', I b, S '':'', R (best_accuracy t)]
                (print [S ''Best Parameters''] (print [] t))"
    by (auto simp add: rf_sweep_def Let_def print_def split: sum.splits option.splits)
  from for_loop_preserves [of "rf_body L" "\<lambda>s. (partitions s, best_depth s)", OF rf_body_frame t]
  have "(partitions t, best_depth t) = (partitions s, best_depth s)" by (simp add: partitions_def)
  then show "partitions s' = partitions s" and "best_depth s' = best_depth s"
    and "best_est s' \<noteq> None"
    unfolding s' using b by (simp_all add: print_def partitions_def)
qed

lemma lr_cell_frame:
  "lr_cell L s = Inr s' \<Longrightarrow>
   partitions s' = partitions s \<and> best_depth s' = best_depth s \<and> best_est s' = best_est s"
  by (auto simp add: lr_cell_def Let_def print_def partitions_def split: sum.splits)

lemma test_cell_frame:
  "test_cell L s = Inr s' \<Longrightarrow>
   partitions s' = partitions s \<and> best_depth s' = best_depth s \<and> best_est s' = best_est s"
  by (auto simp add: test_cell_def Let_def print_def partitions_def split: sum.splits)

lemma model_cells_Inr:
  assumes "model_cells L s = Inr s'"
  shows "\<exists>s1 s2 s3 s4. dt_cell L s = Inr s1 \<and> rf_cell1 L s1 = Inr s2 \<and> rf_cell2 L s2 = Inr s3 \<and>
           lr_cell L s3 = Inr s4 \<and> test_cell L s4 = Inr s'"
proof -
  from assms obtain s4 where
    4: "then_run (then_run (then_run (dt_cell L s) (rf_cell1 L)) (rf_cell2 L)) (lr_cell L) = Inr s4"
      "test_cell L s4 = Inr s'"
    unfolding model_cells_def by (blast dest: then_run_Inr)
  from 4(1) obtain s3 where
    3: "then_run (then_run (dt_cell L s) (rf_cell1 L)) (rf_cell2 L) = Inr s3" "lr_cell L s3 = Inr s4"
    by (blast dest: then_run_Inr)
  from 3(1) obtain s2 where
    2: "then_run (dt_cell L s) (rf_cell1 L) = Inr s2" "rf_cell2 L s2 = Inr s3"
    by (blast dest: then_run_Inr)
  from 2(1) obtain s1 where 1: "dt_cell L s = Inr s1" "rf_cell1 L s1 = Inr s2"
    by (blast dest: then_run_Inr)
  from 1 2(2) 3(2) 4(2) show ?thesis by blast
qed

lemma model_cells_frame:
  assumes "model_cells L s = Inr s'"
  shows "partitions s' = partitions s"
proof -
  from model_cells_Inr [OF assms] obtain s1 s2 s3 s4 where
    r: "dt_cell L s = Inr s1" "rf_cell1 L s1 = Inr s2" "rf_cell2 L s2 = Inr s3"
       "lr_cell L s3 = Inr s4" "test_cell L s4 = Inr s'"
    by blast
  have "partitions s1 = partitions s" using dt_cell_frame(1) [OF r(1)] .
  moreover have "partitions s2 = partitions s1"
    using r(2) unfolding rf_cell1_def by (rule rf_sweep_frame(1))
  moreover have "partitions s3 = partitions s2"
    using r(3) unfolding rf_cell2_def by (rule rf_sweep_frame(1))
  moreover have "partitions s4 = partitions s3" using lr_cell_frame [OF r(4)] by blast
  moreover have "partitions s' = partitions s4" using test_cell_frame [OF r(5)] by blast
  ultimately show ?thesis by simp
qed

lemma dt_body_forgets:
  "dt_body L d (s\<lparr>depth := d0, model := m0, predictions_valid := p0, accuracy := a0\<rparr>)
     = dt_body L d s"
  by (simp add: dt_body_def Let_def print_def split: sum.splits)

lemma rf_body_forgets:
  "rf_body L e (s\<lparr>est := e0, model := m0, predictions_valid := p0, accuracy := a0\<rparr>)
     = rf_body L e s"
  by (simp add: rf_body_def Let_def print_def split: sum.splits)

lemma dt_body_reads:
  "dt_body L d s = Inr s' \<Longrightarrow>
   model s' = Classifier (tree_fit L 12345 d (features_train s) (target_train s)) \<and>
   accuracy s' = dt_accuracy L s d"
  by (auto simp add: dt_body_def Let_def print_def dt_accuracy_def accuracy_score_def
      split: sum.splits if_splits)

lemma rf_body_reads:
  "rf_body L e s = Inr s' \<Longrightarrow> depth s = 3 \<Longrightarrow>
   model s' = Classifier (forest_fit L 12345 e 3 (features_train s) (target_train s)) \<and>
   accuracy s' = rf_accuracy L s e"
  by (auto simp add: rf_body_def Let_def print_def rf_accuracy_def accuracy_score_def
      split: sum.splits if_splits)

lemma test_cell_reads:
  "test_cell L s = Inr s' \<Longrightarrow>
   best_model s' = forest_fit L 12345 15 3 (features_train s) (target_train s) \<and>
   accuracy_test s' = final_accuracy L s"
  by (auto simp add: test_cell_def Let_def print_def final_accuracy_def accuracy_score_def
      split: sum.splits if_splits)

subsection \<open>The run after the split\<close>

lemma final_accuracy_cong: "partitions s' = partitions s \<Longrightarrow> final_accuracy L s' = final_accuracy L s"
  by (simp add: partitions_def final_accuracy_def)

lemma track_Some:
  "\<exists>h. snd b = Some h \<Longrightarrow> \<exists>h. snd (track acc Some cs b) = Some h"
  by (induction cs arbitrary: b) auto

lemma model_cells_run:
  assumes "well_split s" and "\<exists>e\<in>set (py_range 10 51 10). 0 < rf_accuracy L s e"
  shows "\<exists>s'. model_cells L s = Inr s' \<and>
     best_depth s' = snd (track (dt_accuracy L s) (\<lambda>d. d) (py_range 1 6 1) (0, 0)) \<and>
     best_est s' = snd (track (rf_accuracy L s) Some (py_range 1 21 1)
                          (0, first_maximal (rf_accuracy L s) (py_range 10 51 10))) \<and>
     accuracy_test s' = final_accuracy L s"
proof -
  from dt_cell_run [OF assms(1), of L] obtain s1 where
    s1: "dt_cell L s = Inr s1" "partitions s1 = partitions s"
      "(best_accuracy s1, best_depth s1) = track (dt_accuracy L s) (\<lambda>d. d) (py_range 1 6 1) (0, 0)"
    by blast
  have w1: "well_split s1" using assms(1) by (simp add: well_split_cong [OF s1(2)])
  have a1: "rf_accuracy L s1 = rf_accuracy L s" by (rule rf_accuracy_cong [OF s1(2)])
  have "\<exists>e\<in>set (py_range 10 51 10). 0 < rf_accuracy L s1 e" using assms(2) by (simp add: a1)
  from rf_sweep_selects [OF w1 this] obtain s2 where
    s2: "rf_cell1 L s1 = Inr s2" "partitions s2 = partitions s1"
      "first_maximal (rf_accuracy L s) (py_range 10 51 10) = best_est s2"
    unfolding rf_cell1_def a1 by blast
  have d2: "best_depth s2 = best_depth s1"
    using s2(1) unfolding rf_cell1_def by (rule rf_sweep_frame(2))
  have "best_est s2 \<noteq> None" using s2(1) unfolding rf_cell1_def by (rule rf_sweep_frame(3))
  then have some2: "\<exists>h. snd (0::real, best_est s2) = Some h" by auto
  have w2: "well_split s2" using w1 by (simp add: well_split_cong [OF s2(2)])
  have a2: "rf_accuracy L s2 = rf_accuracy L s"
    using rf_accuracy_cong [OF s2(2)] a1 by simp
  from track_Some [OF some2, of "rf_accuracy L s2" "py_range 1 21 1"] obtain h where
    h: "snd (track (rf_accuracy L s2) Some (py_range 1 21 1) (0, best_est s2)) = Some h"
    by blast
  from rf_sweep_bound [OF w2 h] obtain s3 where
    s3: "rf_cell2 L s2 = Inr s3" "partitions s3 = partitions s2" "best_est s3 = Some h"
    unfolding rf_cell2_def by blast
  have d3: "best_depth s3 = best_depth s2"
    using s3(1) unfolding rf_cell2_def by (rule rf_sweep_frame(2))
  have w3: "well_split s3" using w2 by (simp add: well_split_cong [OF s3(2)])
  obtain s4 where s4: "lr_cell L s3 = Inr s4" using lr_cell_run [OF w3] by blast
  note f4 = lr_cell_frame [OF s4]
  have w4: "well_split s4" using w3 f4 by (simp add: well_split_cong [of s4 s3])
  obtain s5 where s5: "test_cell L s4 = Inr s5" using test_cell_run [OF w4] by blast
  note f5 = test_cell_frame [OF s5]
  note r5 = test_cell_reads [OF s5]
  have p4: "partitions s4 = partitions s" using f4 s3(2) s2(2) s1(2) by simp
  have "model_cells L s = Inr s5"
    using s1(1) s2(1) s3(1) s4 s5 by (simp add: model_cells_def)
  moreover have "best_depth s5 = snd (track (dt_accuracy L s) (\<lambda>d. d) (py_range 1 6 1) (0, 0))"
    using f5 f4 d3 d2 s1(3) by (metis snd_conv)
  moreover have "best_est s5 = snd (track (rf_accuracy L s) Some (py_range 1 21 1)
                          (0, first_maximal (rf_accuracy L s) (py_range 10 51 10)))"
    using f5 f4 s3(3) h unfolding a2 s2(3) by simp
  moreover have "accuracy_test s5 = final_accuracy L s"
    using r5 final_accuracy_cong [OF p4] by simp
  ultimately show ?thesis by blast
qed

subsection \<open>The partitions are a frame (C9)\<close>

text \<open>
  C9. No cell after the split changes a partition: the Decision Tree cell, both Random
  Forest cells, the Linear Regression cell, the Test Model cell and the whole run after the
  split end with the partitions they started with. Every iteration of a sweep fits its
  model on the training partition of the namespace it runs in and scores it on the
  validation partition, the final refit is fitted on the same training partition and scored
  on the test partition, and an iteration overwrites the loop variable, the model, its
  predictions and its accuracy without reading what an earlier iteration left in them.
\<close>

theorem partitions_unchanged_after_split:
  "(dt_cell L s = Inr s1 \<longrightarrow> partitions s1 = partitions s) \<and>
   (rf_cell1 L s = Inr s2 \<longrightarrow> partitions s2 = partitions s) \<and>
   (rf_cell2 L s = Inr s3 \<longrightarrow> partitions s3 = partitions s) \<and>
   (lr_cell L s = Inr s4 \<longrightarrow> partitions s4 = partitions s) \<and>
   (test_cell L s = Inr s5 \<longrightarrow>
      partitions s5 = partitions s \<and>
      best_model s5 = forest_fit L 12345 15 3 (features_train s) (target_train s) \<and>
      accuracy_test s5 = final_accuracy L s) \<and>
   (model_cells L s = Inr s6 \<longrightarrow> partitions s6 = partitions s) \<and>
   (dt_body L d s = Inr s7 \<longrightarrow>
      partitions s7 = partitions s \<and>
      model s7 = Classifier (tree_fit L 12345 d (features_train s) (target_train s)) \<and>
      accuracy s7 = dt_accuracy L s d) \<and>
   (rf_body L e s = Inr s8 \<and> depth s = 3 \<longrightarrow>
      partitions s8 = partitions s \<and>
      model s8 = Classifier (forest_fit L 12345 e 3 (features_train s) (target_train s)) \<and>
      accuracy s8 = rf_accuracy L s e) \<and>
   dt_body L d (s\<lparr>depth := d0, model := m0, predictions_valid := p0, accuracy := a0\<rparr>)
     = dt_body L d s \<and>
   rf_body L e (s\<lparr>est := e0, model := m0, predictions_valid := p0, accuracy := a0\<rparr>)
     = rf_body L e s"
proof (intro conjI impI)
  assume "dt_cell L s = Inr s1"
  then show "partitions s1 = partitions s" by (rule dt_cell_frame(1))
next
  assume "rf_cell1 L s = Inr s2"
  then show "partitions s2 = partitions s" unfolding rf_cell1_def by (rule rf_sweep_frame(1))
next
  assume "rf_cell2 L s = Inr s3"
  then show "partitions s3 = partitions s" unfolding rf_cell2_def by (rule rf_sweep_frame(1))
next
  assume "lr_cell L s = Inr s4"
  then show "partitions s4 = partitions s" using lr_cell_frame by blast
next
  assume h: "test_cell L s = Inr s5"
  show "partitions s5 = partitions s" using test_cell_frame [OF h] by blast
  show "best_model s5 = forest_fit L 12345 15 3 (features_train s) (target_train s)"
    using test_cell_reads [OF h] by blast
  show "accuracy_test s5 = final_accuracy L s" using test_cell_reads [OF h] by blast
next
  assume "model_cells L s = Inr s6"
  then show "partitions s6 = partitions s" by (rule model_cells_frame)
next
  assume h: "dt_body L d s = Inr s7"
  show "partitions s7 = partitions s" using dt_body_frame [OF h] by simp
  show "model s7 = Classifier (tree_fit L 12345 d (features_train s) (target_train s))"
    using dt_body_reads [OF h] by blast
  show "accuracy s7 = dt_accuracy L s d" using dt_body_reads [OF h] by blast
next
  assume h: "rf_body L e s = Inr s8 \<and> depth s = 3"
  show "partitions s8 = partitions s" using h rf_body_frame [of L e s s8] by simp
  show "model s8 = Classifier (forest_fit L 12345 e 3 (features_train s) (target_train s))"
    using h rf_body_reads [of L e s s8] by blast
  show "accuracy s8 = rf_accuracy L s e" using h rf_body_reads [of L e s s8] by blast
next
  show "dt_body L d (s\<lparr>depth := d0, model := m0, predictions_valid := p0, accuracy := a0\<rparr>)
     = dt_body L d s"
    by (rule dt_body_forgets)
next
  show "rf_body L e (s\<lparr>est := e0, model := m0, predictions_valid := p0, accuracy := a0\<rparr>)
     = rf_body L e s"
    by (rule rf_body_forgets)
qed

lemma replay3_partitions: "partitions (replay_env\<lparr>depth := 3\<rparr>) = partitions replay_env"
  by simp

text \<open>An instance: every cell, and both loop bodies, on the recorded run.\<close>

theorem partitions_unchanged_after_split_witness:
  "(\<exists>s1. dt_cell replay_library (replay_env\<lparr>depth := 3\<rparr>) = Inr s1 \<and>
      partitions s1 = partitions replay_env) \<and>
   (\<exists>s2. rf_cell1 replay_library (replay_env\<lparr>depth := 3\<rparr>) = Inr s2 \<and>
      partitions s2 = partitions replay_env) \<and>
   (\<exists>s3. rf_cell2 replay_library (replay_env\<lparr>depth := 3\<rparr>) = Inr s3 \<and>
      partitions s3 = partitions replay_env) \<and>
   (\<exists>s4. lr_cell replay_library (replay_env\<lparr>depth := 3\<rparr>) = Inr s4 \<and>
      partitions s4 = partitions replay_env) \<and>
   (\<exists>s5. test_cell replay_library (replay_env\<lparr>depth := 3\<rparr>) = Inr s5 \<and>
      partitions s5 = partitions replay_env \<and> accuracy_test s5 = 504 / 643) \<and>
   (\<exists>s6. model_cells replay_library (replay_env\<lparr>depth := 3\<rparr>) = Inr s6 \<and>
      partitions s6 = partitions replay_env) \<and>
   (\<exists>s7. dt_body replay_library 3 (replay_env\<lparr>depth := 3\<rparr>) = Inr s7 \<and>
      partitions s7 = partitions replay_env \<and> accuracy s7 = 492 / 643) \<and>
   depth (replay_env\<lparr>depth := 3\<rparr>) = 3 \<and>
   (\<exists>s8. rf_body replay_library 15 (replay_env\<lparr>depth := 3\<rparr>) = Inr s8 \<and>
      partitions s8 = partitions replay_env \<and> accuracy s8 = 500 / 643)"
proof -
  let ?s = "replay_env\<lparr>depth := 3\<rparr>"
  note w = well_split_replay3
  note p = replay3_partitions
  have pos1: "\<exists>e\<in>set (py_range 10 51 10). 0 < rf_accuracy replay_library ?s e"
    by (simp add: py_range_10_51 rf_accuracy_replay [OF p] forest_hits_def)
  have pos2: "\<exists>e\<in>set (py_range 1 21 1). 0 < rf_accuracy replay_library ?s e"
    by (simp add: py_range_1_21 rf_accuracy_replay [OF p] forest_hits_def)
  obtain s1 where r1: "dt_cell replay_library ?s = Inr s1"
    using dt_cell_run [OF w] by blast
  obtain s2 where r2: "rf_cell1 replay_library ?s = Inr s2"
    using rf_sweep_selects [OF w pos1] unfolding rf_cell1_def by blast
  obtain s3 where r3: "rf_cell2 replay_library ?s = Inr s3"
    using rf_sweep_selects [OF w pos2] unfolding rf_cell2_def by blast
  obtain s4 where r4: "lr_cell replay_library ?s = Inr s4"
    using lr_cell_run [OF w] by blast
  obtain s5 where r5: "test_cell replay_library ?s = Inr s5"
    using test_cell_run [OF w] by blast
  obtain s6 where r6: "model_cells replay_library ?s = Inr s6"
    using model_cells_run [OF w pos1] by blast
  obtain s7 where r7: "dt_body replay_library 3 ?s = Inr s7"
    using dt_body_run [OF w] by blast
  obtain s8 where r8: "rf_body replay_library 15 ?s = Inr s8"
    using rf_body_run [OF w replay_depth3] by blast
  note th = partitions_unchanged_after_split [of replay_library ?s s1 s2 s3 s4 s5 s6 3 s7 15 s8]
  have fa: "final_accuracy replay_library ?s = 504 / 643"
    using final_accuracy_cong [OF p] final_accuracy_replay by simp
  have da: "dt_accuracy replay_library ?s 3 = 492 / 643"
    by (simp add: dt_accuracy_replay [OF p] tree_hits_def)
  have ra: "rf_accuracy replay_library ?s 15 = 500 / 643"
    by (simp add: rf_accuracy_replay [OF p] forest_hits_def)
  from th r1 have 1: "partitions s1 = partitions replay_env" unfolding p by blast
  from th r2 have 2: "partitions s2 = partitions replay_env" unfolding p by blast
  from th r3 have 3: "partitions s3 = partitions replay_env" unfolding p by blast
  from th r4 have 4: "partitions s4 = partitions replay_env" unfolding p by blast
  from th r5 have 5: "partitions s5 = partitions replay_env \<and> accuracy_test s5 = 504 / 643"
    unfolding p fa by blast
  from th r6 have 6: "partitions s6 = partitions replay_env" unfolding p by blast
  from th r7 have 7: "partitions s7 = partitions replay_env \<and> accuracy s7 = 492 / 643"
    unfolding p da by blast
  from th r8 replay_depth3
  have 8: "partitions s8 = partitions replay_env \<and> accuracy s8 = 500 / 643"
    unfolding p ra by blast
  show ?thesis using r1 r2 r3 r4 r5 r6 r7 r8 1 2 3 4 5 6 7 8 replay_depth3 by blast
qed

subsection \<open>Sweeps in which every accuracy is 0 (C10)\<close>

lemma rf_sweep_after_bound:
  assumes "well_split s" and "best_est s = Some b"
  shows "\<exists>s'. rf_sweep L cands s = Inr s' \<and>
     ((\<forall>e\<in>set cands. rf_accuracy L s e = 0) \<longrightarrow>
        best_est s' = Some b \<and> best_accuracy s' = 0 \<and>
        last (out s') = Print [S ''Estimators:'', I b, S '':'', R 0])"
proof -
  let ?t = "track (rf_accuracy L s) Some cands (0, best_est s)"
  have "\<exists>h. snd (0::real, best_est s) = Some h" using assms(2) by simp
  from track_Some [OF this, of "rf_accuracy L s" cands] obtain h where h: "snd ?t = Some h"
    by blast
  from rf_sweep_bound [OF assms(1) h] obtain s' where
    s': "rf_sweep L cands s = Inr s'" "best_est s' = Some h" "best_accuracy s' = fst ?t"
      "last (out s') = Print [S ''Estimators:'', I h, S '':'', R (best_accuracy s')]"
    by blast
  have "best_est s' = Some b \<and> best_accuracy s' = 0 \<and>
        last (out s') = Print [S ''Estimators:'', I b, S '':'', R 0]"
    if z: "\<forall>e\<in>set cands. rf_accuracy L s e = 0"
  proof -
    have "?t = (0, Some b)" using track_all_zero [OF z, of Some "best_est s"] assms(2) by simp
    then have "h = b" "fst ?t = 0" using h by simp_all
    then show ?thesis using s'(2,3,4) by simp
  qed
  then show ?thesis using s'(1) by blast
qed

lemma rf_sweep_unbound_iff:
  assumes "well_split s" and "best_est s = None"
  shows "(\<exists>s'. rf_sweep L cands s = Inr s') \<longleftrightarrow> (\<exists>e\<in>set cands. 0 < rf_accuracy L s e)"
proof
  assume "\<exists>e\<in>set cands. 0 < rf_accuracy L s e"
  from rf_sweep_selects [OF assms(1) this] show "\<exists>s'. rf_sweep L cands s = Inr s'" by blast
next
  assume ok: "\<exists>s'. rf_sweep L cands s = Inr s'"
  show "\<exists>e\<in>set cands. 0 < rf_accuracy L s e"
  proof (rule ccontr)
    assume "\<not> (\<exists>e\<in>set cands. 0 < rf_accuracy L s e)"
    then have "\<forall>e\<in>set cands. rf_accuracy L s e \<le> 0" by (simp add: not_less)
    then have "\<forall>e\<in>set cands. rf_accuracy L s e = 0"
      using rf_accuracy_nonneg [of L s] by (simp add: antisym)
    from rf_sweep_all_zero_unbound [OF assms this] ok show False by simp
  qed
qed

lemma dt_cell_all_zero:
  assumes "well_split s" and "\<forall>d\<in>set (py_range 1 6 1). dt_accuracy L s d = 0"
  shows "\<exists>s'. dt_cell L s = Inr s' \<and> best_depth s' = 0 \<and> best_accuracy s' = 0 \<and>
           last (out s') = Print [S ''max_depth ='', I 0, S '':'', R 0]"
proof -
  from dt_cell_run [OF assms(1), of L] obtain s' where
    s': "dt_cell L s = Inr s'"
      "(best_accuracy s', best_depth s') = track (dt_accuracy L s) (\<lambda>d. d) (py_range 1 6 1) (0, 0)"
      "last (out s') = Print [S ''max_depth ='', I (best_depth s'), S '':'', R (best_accuracy s')]"
    by blast
  have "track (dt_accuracy L s) (\<lambda>d. d) (py_range 1 6 1) (0, 0::int) = (0, 0)"
    by (rule track_all_zero [OF assms(2)])
  then have "best_depth s' = 0" "best_accuracy s' = 0" using s'(2) by simp_all
  then show ?thesis using s'(1,3) by simp
qed

text \<open>
  C10 (as amended). The random-forest sweeps initialise \<open>best_estimators\<close> but assign
  and print \<open>best_est\<close>. A sweep that is entered with \<open>best_est\<close> unbound, as the
  first one is in a fresh run, prints its summary exactly when some candidate has a
  validation accuracy strictly greater than 0, and ends with the unbound-name error when
  every candidate's accuracy is 0. The second sweep runs only after the first one has
  succeeded and so bound \<open>best_est\<close>: it never raises, and when every one of its
  candidates has accuracy 0 its summary reports the first sweep's \<open>best_est\<close> with
  accuracy 0. The decision-tree sweep with every accuracy at 0 reports depth 0, which is
  none of its candidates 1 to 5.
\<close>

theorem best_est_unbound_when_all_zero:
  assumes "well_split s"
  shows "(best_est s = None \<longrightarrow>
      ((\<exists>s'. rf_cell1 L s = Inr s') \<longleftrightarrow> (\<exists>e\<in>set (py_range 10 51 10). 0 < rf_accuracy L s e)) \<and>
      ((\<forall>e\<in>set (py_range 10 51 10). rf_accuracy L s e = 0) \<longrightarrow>
         rf_cell1 L s = Inl (NameError ''best_est'')) \<and>
      ((\<exists>s'. rf_cell2 L s = Inr s') \<longleftrightarrow> (\<exists>e\<in>set (py_range 1 21 1). 0 < rf_accuracy L s e)) \<and>
      ((\<forall>e\<in>set (py_range 1 21 1). rf_accuracy L s e = 0) \<longrightarrow>
         rf_cell2 L s = Inl (NameError ''best_est''))) \<and>
    (\<forall>s1. rf_cell1 L s = Inr s1 \<longrightarrow>
      (\<exists>b s2. best_est s1 = Some b \<and> rf_cell2 L s1 = Inr s2 \<and>
         ((\<forall>e\<in>set (py_range 1 21 1). rf_accuracy L s e = 0) \<longrightarrow>
            best_est s2 = Some b \<and> best_accuracy s2 = 0 \<and>
            last (out s2) = Print [S ''Estimators:'', I b, S '':'', R 0]))) \<and>
    ((\<forall>d\<in>set (py_range 1 6 1). dt_accuracy L s d = 0) \<longrightarrow>
      (\<exists>s'. dt_cell L s = Inr s' \<and> best_depth s' = 0 \<and> best_depth s' \<notin> set (py_range 1 6 1) \<and>
         last (out s') = Print [S ''max_depth ='', I 0, S '':'', R 0]))"
proof (intro conjI impI allI)
  assume n: "best_est s = None"
  show "(\<exists>s'. rf_cell1 L s = Inr s') \<longleftrightarrow> (\<exists>e\<in>set (py_range 10 51 10). 0 < rf_accuracy L s e)"
    unfolding rf_cell1_def by (rule rf_sweep_unbound_iff [OF assms n])
  show "(\<exists>s'. rf_cell2 L s = Inr s') \<longleftrightarrow> (\<exists>e\<in>set (py_range 1 21 1). 0 < rf_accuracy L s e)"
    unfolding rf_cell2_def by (rule rf_sweep_unbound_iff [OF assms n])
  show "rf_cell1 L s = Inl (NameError ''best_est'')"
    if "\<forall>e\<in>set (py_range 10 51 10). rf_accuracy L s e = 0"
    unfolding rf_cell1_def by (rule rf_sweep_all_zero_unbound [OF assms n that])
  show "rf_cell2 L s = Inl (NameError ''best_est'')"
    if "\<forall>e\<in>set (py_range 1 21 1). rf_accuracy L s e = 0"
    unfolding rf_cell2_def by (rule rf_sweep_all_zero_unbound [OF assms n that])
next
  fix s1 :: env
  assume r1: "rf_cell1 L s = Inr s1"
  then have r1': "rf_sweep L (py_range 10 51 10) s = Inr s1" by (simp add: rf_cell1_def)
  have p1: "partitions s1 = partitions s" using r1' by (rule rf_sweep_frame(1))
  have "best_est s1 \<noteq> None" using r1' by (rule rf_sweep_frame(3))
  then obtain b where b: "best_est s1 = Some b" by auto
  have w1: "well_split s1" using assms by (simp add: well_split_cong [OF p1])
  from rf_sweep_after_bound [OF w1 b, of L "py_range 1 21 1"]
  show "\<exists>b s2. best_est s1 = Some b \<and> rf_cell2 L s1 = Inr s2 \<and>
         ((\<forall>e\<in>set (py_range 1 21 1). rf_accuracy L s e = 0) \<longrightarrow>
            best_est s2 = Some b \<and> best_accuracy s2 = 0 \<and>
            last (out s2) = Print [S ''Estimators:'', I b, S '':'', R 0])"
    unfolding rf_cell2_def rf_accuracy_cong [OF p1] using b by blast
next
  assume "\<forall>d\<in>set (py_range 1 6 1). dt_accuracy L s d = 0"
  from dt_cell_all_zero [OF assms this]
  show "\<exists>s'. dt_cell L s = Inr s' \<and> best_depth s' = 0 \<and> best_depth s' \<notin> set (py_range 1 6 1) \<and>
         last (out s') = Print [S ''max_depth ='', I 0, S '':'', R 0]"
    by (auto simp add: py_range_1_6)
qed

lemma rf_accuracy_unlucky: "rf_accuracy unlucky_library replay_env e = 0"
  by (simp add: rf_accuracy_def unlucky_library_def five_library_def replay_library_def
      replay_env_def fraction_below)

lemma best_est_replay: "best_est replay_env = None"
  by (simp add: replay_env_def)

text \<open>
  Instances: sweeps entered with \<open>best_est\<close> unbound whose candidates all have accuracy
  0; the second sweep after a first one that selected 30 estimators; and a decision-tree
  sweep whose depths all have accuracy 0.
\<close>

theorem best_est_unbound_when_all_zero_witness:
  "well_split replay_env \<and> best_est replay_env = None \<and>
   list_all (\<lambda>e. rf_accuracy zero_library replay_env e = 0) (py_range 1 21 1) \<and>
   rf_cell2 zero_library replay_env = Inl (NameError ''best_est'') \<and>
   list_all (\<lambda>e. rf_accuracy unlucky_library replay_env e = 0) (py_range 10 51 10) \<and>
   rf_cell1 unlucky_library replay_env = Inl (NameError ''best_est'') \<and>
   0 < rf_accuracy zero_library replay_env 30 \<and>
   (\<exists>b s1 s2. rf_cell1 zero_library replay_env = Inr s1 \<and> best_est s1 = Some b \<and>
      rf_cell2 zero_library s1 = Inr s2 \<and> best_est s2 = Some b \<and>
      last (out s2) = Print [S ''Estimators:'', I b, S '':'', R 0]) \<and>
   list_all (\<lambda>d. dt_accuracy zero_library replay_env d = 0) (py_range 1 6 1) \<and>
   (\<exists>s'. dt_cell zero_library replay_env = Inr s' \<and> best_depth s' = 0 \<and>
      last (out s') = Print [S ''max_depth ='', I 0, S '':'', R 0])"
proof -
  note thz = best_est_unbound_when_all_zero [OF well_split_replay, of zero_library]
  note thu = best_est_unbound_when_all_zero [OF well_split_replay, of unlucky_library]
  note rz = rf_accuracy_zero [OF replay_self]
  have z2: "\<forall>e\<in>set (py_range 1 21 1). rf_accuracy zero_library replay_env e = 0"
    by (simp add: py_range_1_21 rz)
  have u1: "\<forall>e\<in>set (py_range 10 51 10). rf_accuracy unlucky_library replay_env e = 0"
    by (simp add: rf_accuracy_unlucky)
  have p30: "0 < rf_accuracy zero_library replay_env 30" by (simp add: rz)
  then have pos: "\<exists>e\<in>set (py_range 10 51 10). 0 < rf_accuracy zero_library replay_env e"
    by (auto simp add: py_range_10_51)
  have d0: "\<forall>d\<in>set (py_range 1 6 1). dt_accuracy zero_library replay_env d = 0"
    by (simp add: dt_accuracy_zero)
  from thz best_est_replay z2
  have 1: "rf_cell2 zero_library replay_env = Inl (NameError ''best_est'')" by blast
  from thu best_est_replay u1
  have 2: "rf_cell1 unlucky_library replay_env = Inl (NameError ''best_est'')" by blast
  from thz best_est_replay pos obtain s1 where s1: "rf_cell1 zero_library replay_env = Inr s1"
    by blast
  with thz z2 have 3: "\<exists>b s1 s2. rf_cell1 zero_library replay_env = Inr s1 \<and> best_est s1 = Some b \<and>
      rf_cell2 zero_library s1 = Inr s2 \<and> best_est s2 = Some b \<and>
      last (out s2) = Print [S ''Estimators:'', I b, S '':'', R 0]"
    by blast
  from thz d0 have 4: "\<exists>s'. dt_cell zero_library replay_env = Inr s' \<and> best_depth s' = 0 \<and>
      last (out s') = Print [S ''max_depth ='', I 0, S '':'', R 0]"
    by blast
  show ?thesis
    using well_split_replay best_est_replay z2 u1 d0 p30 1 2 3 4 by (simp add: list_all_iff)
qed

text \<open>
  The first sweep selects 30 estimators; every candidate of the second sweep has accuracy
  0, and its summary succeeds, reporting 30 estimators with accuracy 0.
\<close>

theorem second_sweep_reports_stale_best_est:
  "list_all (\<lambda>e. rf_accuracy zero_library replay_env e = 0) (py_range 1 21 1) \<and>
   map_sum id (\<lambda>s. (best_est s, last (out s)))
     (then_run (rf_cell1 zero_library replay_env) (rf_cell2 zero_library))
     = Inr (Some 30, Print [S ''Estimators:'', I 30, S '':'', R 0])"
proof -
  note rz = rf_accuracy_zero [OF replay_self]
  have z2: "\<forall>e\<in>set (py_range 1 21 1). rf_accuracy zero_library replay_env e = 0"
    by (simp add: py_range_1_21 rz)
  have pos: "\<exists>e\<in>set (py_range 10 51 10). 0 < rf_accuracy zero_library replay_env e"
    by (simp add: py_range_10_51 rz)
  have f: "first_maximal (rf_accuracy zero_library replay_env) (py_range 10 51 10) = Some 30"
    by (simp add: py_range_10_51 rz first_maximal_def)
  from rf_sweep_selects [OF well_split_replay pos] obtain s1 where
    s1: "rf_cell1 zero_library replay_env = Inr s1" "partitions s1 = partitions replay_env"
      "best_est s1 = Some 30"
    unfolding rf_cell1_def f by auto
  have w1: "well_split s1" using s1(2) by (rule well_split_replay_like)
  have z2': "\<forall>e\<in>set (py_range 1 21 1). rf_accuracy zero_library s1 e = 0"
    using z2 by (simp add: rf_accuracy_cong [OF s1(2)])
  from rf_sweep_after_bound [OF w1 s1(3), of zero_library "py_range 1 21 1"] z2'
  obtain s2 where "rf_cell2 zero_library s1 = Inr s2" "best_est s2 = Some 30"
    "last (out s2) = Print [S ''Estimators:'', I 30, S '':'', R 0]"
    unfolding rf_cell2_def by blast
  then show ?thesis using s1(1) z2 by (simp add: list_all_iff)
qed

end
